theory Spec2Isabelle
  imports Complex_Main "HOL-Library.AList"
begin

section \<open>Conventions of the embedding\<close>

text \<open>
  The planning and validation engine of reddit-mastermind is embedded function by
  function. Mutable class state (the three usage trackers, the comment id counter, the
  arrays that collect errors and warnings) is passed in and returned explicitly. Every
  exception of the source is a value \<open>Inl e\<close> of the result type.

  \<^item> A JavaScript \<open>number\<close> that holds a count or an index is a \<open>nat\<close> or an \<open>int\<close>;
    a \<open>number\<close> that holds a quotient (a percentage, a similarity) is a \<open>rat\<close>, so the
    rounding of IEEE doubles is not part of the model.
  \<^item> A \<open>Date\<close> is the number of milliseconds on the local wall clock since the epoch,
    an \<open>int\<close>; the local time zone has a fixed offset (no daylight-saving change).
  \<^item> Each call of \<open>Math.random()\<close> is a \<open>rat\<close> taken from a sequence of draws
    \<open>nat \<Rightarrow> rat\<close>; the draws of a real run lie in \<open>[0, 1)\<close>.
  \<^item> Strings are lists of 8-bit code units.
\<close>

datatype error =
    TypeError
  | GenerationError string
  | ValidationError string

type_synonym draws = "nat \<Rightarrow> rat"

definition next_draw :: "draws \<Rightarrow> rat" where
  "next_draw s = s 0"

definition rest :: "draws \<Rightarrow> draws" where
  "rest s = (\<lambda>n. s (Suc n))"

text \<open>\<open>Math.floor(Math.random() * n)\<close> for a draw \<open>r\<close>.\<close>

definition floor_random :: "rat \<Rightarrow> int \<Rightarrow> int" where
  "floor_random r n = \<lfloor>r * of_int n\<rfloor>"

section \<open>Timestamp model (\<open>lib/utils/date\<close>)\<close>

type_synonym Date = int

definition getHours :: "Date \<Rightarrow> int" where
  "getHours d = (d div 3600000) mod 24"

definition getMinutes :: "Date \<Rightarrow> int" where
  "getMinutes d = (d div 60000) mod 60"

text \<open>Day of the week, Sunday is 0; the epoch was a Thursday.\<close>

definition getDay :: "Date \<Rightarrow> int" where
  "getDay d = (d div 86400000 + 4) mod 7"

text \<open>The number of the calendar day a timestamp falls on.\<close>

definition dayIndex :: "Date \<Rightarrow> int" where
  "dayIndex d = d div 86400000"

text \<open>The date-fns setters replace one field and keep the others (seconds and
  milliseconds included).\<close>

definition setHours :: "Date \<Rightarrow> int \<Rightarrow> Date" where
  "setHours d h = d + (h - getHours d) * 3600000"

definition setMinutes :: "Date \<Rightarrow> int \<Rightarrow> Date" where
  "setMinutes d m = d + (m - getMinutes d) * 60000"

definition addMinutes :: "Date \<Rightarrow> int \<Rightarrow> Date" where
  "addMinutes d n = d + n * 60000"

definition addHours :: "Date \<Rightarrow> int \<Rightarrow> Date" where
  "addHours d n = d + n * 3600000"

definition addDays :: "Date \<Rightarrow> int \<Rightarrow> Date" where
  "addDays d n = d + n * 86400000"

definition isWeekend :: "Date \<Rightarrow> bool" where
  "isWeekend d \<longleftrightarrow> getDay d = 0 \<or> getDay d = 6"

text \<open>\<open>startOfWeek(date, { weekStartsOn: 1 })\<close>: midnight of the Monday on or before.\<close>

definition startOfWeek :: "Date \<Rightarrow> Date" where
  "startOfWeek d =
     (let day = getDay d;
          diff = (if day < 1 then 7 else 0) + day - 1
      in (dayIndex d - diff) * 86400000)"

text \<open>\<open>generatePostTime\<close> draws once for the weekend relocation, only when the day is a
  weekend day, then twice for the hour and once for the minute. It is called with
  \<open>postIndex < totalPosts\<close>, so the division is by a positive number.\<close>

definition generatePostTime :: "Date \<Rightarrow> nat \<Rightarrow> nat \<Rightarrow> draws \<Rightarrow> Date \<times> draws" where
  "generatePostTime weekStart postIndex totalPosts s =
     (let baseDate = startOfWeek weekStart;
          dayOffset = int ((postIndex * 7) div totalPosts);
          postDate = addDays baseDate dayOffset;
          (postDate, s) =
            (if isWeekend postDate then
               (if next_draw s > 3 / 10
                then (addDays postDate (if getDay postDate = 0 then 1 else 2), rest s)
                else (postDate, rest s))
             else (postDate, s));
          hour = (if next_draw s < 1 / 2
                  then 14 + floor_random (next_draw (rest s)) 4
                  else 9 + floor_random (next_draw (rest s)) 12);
          s = rest (rest s);
          minute = floor_random (next_draw s) 60;
          s = rest s;
          postDate = setHours postDate hour;
          postDate = setMinutes postDate minute
      in (postDate, s))"

definition generateFirstCommentTime :: "Date \<Rightarrow> rat \<Rightarrow> Date" where
  "generateFirstCommentTime postTime r =
     (let delayMinutes = 15 + floor_random r 45 in addMinutes postTime delayMinutes)"

definition generateReplyCommentTime :: "Date \<Rightarrow> rat \<Rightarrow> Date" where
  "generateReplyCommentTime parentCommentTime r =
     (let delayMinutes = 5 + floor_random r 25 in addMinutes parentCommentTime delayMinutes)"

definition generateLateCommentTime :: "Date \<Rightarrow> rat \<Rightarrow> rat \<Rightarrow> Date" where
  "generateLateCommentTime postTime r1 r2 =
     (let delayHours = 1 + floor_random r1 5;
          delayMinutes = floor_random r2 60;
          commentTime = addHours postTime delayHours;
          commentTime = addMinutes commentTime delayMinutes
      in commentTime)"

definition adjustToBusinessHours :: "Date \<Rightarrow> Date" where
  "adjustToBusinessHours date =
     (let hour = getHours date in
      if hour < 6 then setHours (setMinutes date 0) 9
      else if hour \<ge> 23 then
        (let adjusted = addDays date 1;
             adjusted = setHours (setMinutes adjusted 0) 9
         in adjusted)
      else date)"

definition getMinutesDifference :: "Date \<Rightarrow> Date \<Rightarrow> int" where
  "getMinutesDifference date1 date2 = (date2 - date1) div (1000 * 60)"

definition isValidCommentTime :: "Date \<Rightarrow> Date \<Rightarrow> bool" where
  "isValidCommentTime postTime commentTime =
     (let diffMinutes = getMinutesDifference postTime commentTime
      in diffMinutes > 0 \<and> diffMinutes < 7 * 24 * 60)"

section \<open>Strings and number formatting\<close>

definition digit_char :: "nat \<Rightarrow> char" where
  "digit_char n = ''0123456789'' ! n"

text \<open>The decimal numeral of a natural number, as a template literal prints it.\<close>

fun nat_str :: "nat \<Rightarrow> string" where
  "nat_str n = (if n < 10 then [digit_char n] else nat_str (n div 10) @ [digit_char (n mod 10)])"

declare nat_str.simps [simp del]

definition int_str :: "int \<Rightarrow> string" where
  "int_str i = (if i < 0 then ''-'' @ nat_str (nat (- i)) else nat_str (nat i))"

text \<open>\<open>Number.prototype.toFixed(f)\<close> on an exact quotient: the nearest multiple of
  \<open>10^-f\<close>, the larger one at a tie, below \<open>10^21\<close> in absolute value.\<close>

definition toFixed :: "rat \<Rightarrow> nat \<Rightarrow> string" where
  "toFixed x f =
     (let a = \<bar>x\<bar>;
          n = nat \<lfloor>a * 10 ^ f + 1 / 2\<rfloor>;
          ds = nat_str n;
          ds = replicate (Suc f - length ds) (CHR ''0'') @ ds;
          body = (if f = 0 then ds
                  else take (length ds - f) ds @ ''.'' @ drop (length ds - f) ds)
      in if x < 0 then ''-'' @ body else body)"

fun join :: "string \<Rightarrow> string list \<Rightarrow> string" where
  "join sep [] = []"
| "join sep [x] = x"
| "join sep (x # y # ys) = x @ sep @ join sep (y # ys)"


text \<open>\<open>Array.prototype.sort(cmp)\<close> is stable; for a comparator that orders by a key
  the result is the one insertion sort computes.\<close>

fun insert_by :: "('a \<Rightarrow> 'a \<Rightarrow> int) \<Rightarrow> 'a \<Rightarrow> 'a list \<Rightarrow> 'a list" where
  "insert_by cmp x [] = [x]"
| "insert_by cmp x (y # ys) = (if cmp x y \<le> 0 then x # y # ys else y # insert_by cmp x ys)"

definition sort_by :: "('a \<Rightarrow> 'a \<Rightarrow> int) \<Rightarrow> 'a list \<Rightarrow> 'a list" where
  "sort_by cmp xs = foldr (insert_by cmp) xs []"

text \<open>A \<open>Map<string, V>\<close> keeps its keys in insertion order: an association list,
  read with \<open>map_of\<close> and written with \<open>AList.update\<close>.\<close>

definition increment :: "string \<Rightarrow> (string \<times> nat) list \<Rightarrow> (string \<times> nat) list" where
  "increment k m =
     (let count = (case map_of m k of None \<Rightarrow> 0 | Some c \<Rightarrow> c)
      in AList.update k (count + 1) m)"

section \<open>Data model (\<open>lib/ai/schemas\<close>)\<close>

record Persona =
  username :: string
  backstory :: string

record Keyword =
  keyword_id :: string
  keyword :: string

record CompanyInfo =
  name :: string
  website :: string
  description :: string
  company_subreddits :: "string list"
  postsPerWeek :: nat

record GeneratedPost =
  post_id :: string
  post_subreddit :: string
  title :: string
  body :: string
  author_username :: string
  timestamp :: Date
  keyword_ids :: "string list"

text \<open>A record field is a constant, so a field whose name is also the name of a
  parameter or of a field of another record carries a prefix: \<open>company_subreddits\<close>,
  \<open>post_subreddit\<close>, and \<open>c_post_id\<close>, \<open>c_username\<close>, \<open>c_timestamp\<close> for the
  comment's \<open>post_id\<close>, \<open>username\<close> and \<open>timestamp\<close>.\<close>

record GeneratedComment =
  comment_id :: string
  c_post_id :: string
  parent_comment_id :: "string option"
  comment_text :: string
  c_username :: string
  c_timestamp :: Date

record ValidationResult =
  isValid :: bool
  errors :: "string list"
  warnings :: "string list"

text \<open>\<open>if (comment.parent_comment_id)\<close>: \<open>null\<close> and the empty string are falsy.\<close>

fun truthy :: "string option \<Rightarrow> bool" where
  "truthy None = False"
| "truthy (Some s) = (s \<noteq> [])"

section \<open>Business rules (\<open>lib/algorithm/validators\<close>)\<close>

definition validateNoOverposting :: "GeneratedPost list \<Rightarrow> ValidationResult" where
  "validateNoOverposting posts =
     (let subredditCounts = fold (\<lambda>post m. increment (post_subreddit post) m) posts [];
          errors = concat (map (\<lambda>(subreddit, count).
                     if count > 1
                     then [''Overposting detected: '' @ subreddit @ '' has '' @ nat_str count
                           @ '' posts (max 1 per week)'']
                     else []) subredditCounts)
      in \<lparr>isValid = (length errors = 0), errors = errors, warnings = []\<rparr>)"

text \<open>\<open>toLowerCase\<close> on the ASCII letters; other code units are kept.\<close>

definition toLowerCase_char :: "char \<Rightarrow> char" where
  "toLowerCase_char c =
     (case map_of (zip ''ABCDEFGHIJKLMNOPQRSTUVWXYZ'' ''abcdefghijklmnopqrstuvwxyz'') c of
        None \<Rightarrow> c
      | Some l \<Rightarrow> l)"

definition toLowerCase :: "string \<Rightarrow> string" where
  "toLowerCase s = map toLowerCase_char s"

text \<open>The white space of \<open>\s\<close> among the 8-bit code units.\<close>

definition is_space :: "char \<Rightarrow> bool" where
  "is_space c \<longleftrightarrow> c \<in> set [CHR 0x09, CHR 0x0A, CHR 0x0B, CHR 0x0C, CHR 0x0D, CHR '' '', CHR 0xA0]"

text \<open>\<open>text.split(/\s+/)\<close>: the pieces between maximal runs of white space, an empty
  piece where the text starts or ends with white space.\<close>

fun split_ws :: "string \<Rightarrow> string list" where
  "split_ws [] = [] # []"
| "split_ws (c # cs) =
     (if is_space c then
        (if cs \<noteq> [] \<and> is_space (hd cs) then split_ws cs else [] # split_ws cs)
      else (case split_ws cs of
              [] \<Rightarrow> [c] # []
            | w # ws \<Rightarrow> (c # w) # ws))"

definition calculateTextSimilarity :: "string \<Rightarrow> string \<Rightarrow> rat" where
  "calculateTextSimilarity text1 text2 =
     (let words1 = remdups (filter (\<lambda>w. length w > 3) (split_ws text1));
          words2 = remdups (filter (\<lambda>w. length w > 3) (split_ws text2))
      in if length words1 = 0 \<and> length words2 = 0 then 1
         else if length words1 = 0 \<or> length words2 = 0 then 0
         else (let intersection = filter (\<lambda>w. w \<in> set words2) words1;
                   union = remdups (words1 @ words2)
               in of_nat (length intersection) / of_nat (length union)))"

text \<open>The pairs \<open>(posts[i], posts[j])\<close> with \<open>i < j\<close>, in the order the nested loops
  visit them.\<close>

fun post_pairs :: "'a list \<Rightarrow> ('a \<times> 'a) list" where
  "post_pairs [] = []"
| "post_pairs (x # xs) = map (Pair x) xs @ post_pairs xs"

definition validateTopicDiversity :: "GeneratedPost list \<Rightarrow> ValidationResult" where
  "validateTopicDiversity posts =
     (let checks = map (\<lambda>(pi, pj).
            (let similarity = calculateTextSimilarity (toLowerCase (title pi)) (toLowerCase (title pj))
             in if similarity > 7 / 10 then
                  ([''Posts '' @ post_id pi @ '' and '' @ post_id pj @ '' are too similar (''
                    @ toFixed (similarity * 100) 0 @ ''% similarity)''], [])
                else if similarity > 1 / 2 then
                  ([], [''Posts '' @ post_id pi @ '' and '' @ post_id pj
                    @ '' have moderate similarity ('' @ toFixed (similarity * 100) 0 @ ''%)''])
                else ([], []))) (post_pairs posts);
          errors = concat (map fst checks);
          warnings = concat (map snd checks)
      in \<lparr>isValid = (length errors = 0), errors = errors, warnings = warnings\<rparr>)"

text \<open>The messages the first loop of \<open>validateTimestamps\<close> pushes for one post:
  errors, then warnings.\<close>

definition postTimestampMessages :: "GeneratedPost \<Rightarrow> string list \<times> string list" where
  "postTimestampMessages post =
     (let hour = getHours (timestamp post) in
      (if hour \<ge> 2 \<and> hour < 5
       then [''Post '' @ post_id post @ '' has unrealistic timestamp: '' @ int_str hour
             @ '':00 (middle of night)'']
       else [],
       if hour < 6
       then [''Post '' @ post_id post @ '' has unusual timestamp: '' @ int_str hour
             @ '':00 (early morning)'']
       else []))"

text \<open>The messages the second loop pushes for one comment.\<close>

definition commentTimestampMessages ::
  "GeneratedPost list \<Rightarrow> GeneratedComment list \<Rightarrow> GeneratedComment \<Rightarrow> string list \<times> string list" where
  "commentTimestampMessages posts comments comment =
     (case find (\<lambda>p. post_id p = c_post_id comment) posts of
        None \<Rightarrow>
          ([''Comment '' @ comment_id comment @ '' references non-existent post ''
            @ c_post_id comment], [])
      | Some post \<Rightarrow>
          (let e1 =
                (if \<not> isValidCommentTime (timestamp post) (c_timestamp comment) then
                   (let timeDiff = (of_int (c_timestamp comment - timestamp post) :: rat) / (1000 * 60)
                    in if timeDiff < 0 then
                         [''Comment '' @ comment_id comment @ '' timestamp is before its post (''
                          @ toFixed \<bar>timeDiff\<bar> 0 @ '' minutes early)'']
                       else
                         [''Comment '' @ comment_id comment @ '' timestamp is too late (''
                          @ toFixed (timeDiff / 60 / 24) 1 @ '' days after post)''])
                 else []);
               (e2, w2) =
                (if truthy (parent_comment_id comment) then
                   (case find (\<lambda>c. Some (comment_id c) = parent_comment_id comment) comments of
                      None \<Rightarrow>
                        ([''Comment '' @ comment_id comment @ '' references non-existent parent ''
                          @ the (parent_comment_id comment)], [])
                    | Some parentComment \<Rightarrow>
                        (let replyTime =
                               (of_int (c_timestamp comment - c_timestamp parentComment) :: rat)
                               / (1000 * 60)
                         in if replyTime < 0 then
                              ([''Comment '' @ comment_id comment
                                @ '' timestamp is before its parent comment''], [])
                            else if replyTime < 1 then
                              ([], [''Comment '' @ comment_id comment @ '' replies too quickly (''
                                    @ toFixed replyTime 0 @ '' minutes)''])
                            else ([], [])))
                 else ([], []))
           in (e1 @ e2, w2)))"

definition validateTimestamps ::
  "GeneratedPost list \<Rightarrow> GeneratedComment list \<Rightarrow> ValidationResult" where
  "validateTimestamps posts comments =
     (let postMessages = map postTimestampMessages posts;
          commentMessages = map (commentTimestampMessages posts comments) comments;
          errors = concat (map fst postMessages) @ concat (map fst commentMessages);
          warnings = concat (map snd postMessages) @ concat (map snd commentMessages)
      in \<lparr>isValid = (length errors = 0), errors = errors, warnings = warnings\<rparr>)"

record PersonaStat =
  stat_username :: string
  stat_count :: nat
  stat_percentage :: rat

definition validatePersonaDistribution ::
  "GeneratedPost list \<Rightarrow> GeneratedComment list \<Rightarrow> ValidationResult" where
  "validatePersonaDistribution posts comments =
     (let personaCounts = fold (\<lambda>post m. increment (author_username post) m) posts [];
          personaCounts = fold (\<lambda>comment m. increment (c_username comment) m) comments personaCounts;
          totalContent = length posts + length comments;
          personaStats = sort_by (\<lambda>a b. int (stat_count b) - int (stat_count a))
            (map (\<lambda>(username, count).
                    \<lparr>stat_username = username, stat_count = count,
                     stat_percentage = (of_nat count / of_nat totalContent) * 100\<rparr>) personaCounts);
          errors =
            (if length personaStats > 0 \<and> stat_percentage (hd personaStats) > 50
             then [''Persona '' @ stat_username (hd personaStats) @ '' dominates content (''
                   @ toFixed (stat_percentage (hd personaStats)) 0 @ ''% of all posts/comments)'']
             else []);
          warnings =
            (if length personaStats > 1 \<and> stat_percentage (hd personaStats) > 40
             then [''Persona '' @ stat_username (hd personaStats) @ '' has high content share (''
                   @ toFixed (stat_percentage (hd personaStats)) 0 @ ''%)'']
             else [])
            @ (if list_ex (\<lambda>stat. stat_count stat = 0) personaStats
               then [''Unused personas: ''
                     @ join '', '' (map stat_username (filter (\<lambda>stat. stat_count stat = 0) personaStats))]
               else [])
      in \<lparr>isValid = (length errors = 0), errors = errors, warnings = warnings\<rparr>)"

text \<open>The errors \<open>validateCommentThreads\<close> pushes for one comment.\<close>

definition commentThreadErrors :: "GeneratedComment list \<Rightarrow> GeneratedComment \<Rightarrow> string list" where
  "commentThreadErrors comments comment =
     (if truthy (parent_comment_id comment) then
        (let parentExists = list_ex (\<lambda>c. Some (comment_id c) = parent_comment_id comment) comments
         in (if \<not> parentExists
             then [''Comment '' @ comment_id comment @ '' references non-existent parent ''
                   @ the (parent_comment_id comment)]
             else [])
            @ (if Some (comment_id comment) = parent_comment_id comment
               then [''Comment '' @ comment_id comment @ '' references itself as parent'']
               else []))
      else [])"

definition validateCommentThreads :: "GeneratedComment list \<Rightarrow> ValidationResult" where
  "validateCommentThreads comments =
     (let errors = concat (map (commentThreadErrors comments) comments)
      in \<lparr>isValid = (length errors = 0), errors = errors, warnings = []\<rparr>)"

definition validateContentCalendar ::
  "GeneratedPost list \<Rightarrow> GeneratedComment list \<Rightarrow> ValidationResult" where
  "validateContentCalendar posts comments =
     (let results =
            [validateNoOverposting posts,
             validateTopicDiversity posts,
             validateTimestamps posts comments,
             validatePersonaDistribution posts comments,
             validateCommentThreads comments]
      in \<lparr>isValid = list_all isValid results,
          errors = concat (map errors results),
          warnings = concat (map warnings results)\<rparr>)"

definition fixTimestampIssues ::
  "GeneratedPost list \<Rightarrow> GeneratedComment list \<Rightarrow> GeneratedPost list \<times> GeneratedComment list" where
  "fixTimestampIssues posts comments =
     (let posts = map (\<lambda>post. post\<lparr>timestamp := adjustToBusinessHours (timestamp post)\<rparr>) posts;
          comments = map (\<lambda>comment.
            (case find (\<lambda>p. post_id p = c_post_id comment) posts of
               None \<Rightarrow> comment
             | Some post \<Rightarrow>
                 if c_timestamp comment < timestamp post
                 then comment\<lparr>c_timestamp := timestamp post + 15 * 60 * 1000\<rparr>
                 else comment)) comments
      in (posts, comments))"

section \<open>Subreddit rotation (\<open>lib/algorithm/subreddit-strategy\<close>)\<close>

text \<open>The tracker's own \<open>subreddit\<close> field is \<open>tracked_subreddit\<close> here.\<close>

record SubredditUsageTracker =
  tracked_subreddit :: string
  postsThisWeek :: nat
  lastPostIndex :: int

type_synonym SubredditStrategy = "(string \<times> SubredditUsageTracker) list"

definition initSubredditUsage :: "string \<Rightarrow> SubredditStrategy \<Rightarrow> SubredditStrategy" where
  "initSubredditUsage sub usageTracker =
     (if map_of usageTracker sub \<noteq> None then usageTracker
      else AList.update sub
             \<lparr>tracked_subreddit = sub, postsThisWeek = 0, lastPostIndex = - 1\<rparr> usageTracker)"

definition selectSubreddit ::
  "SubredditStrategy \<Rightarrow> string list \<Rightarrow> nat \<Rightarrow> nat \<Rightarrow> error + (string \<times> SubredditStrategy)" where
  "selectSubreddit usageTracker subreddits postIndex totalPosts =
     (let usageTracker = fold initSubredditUsage subreddits usageTracker;
          availableSubreddits =
            filter (\<lambda>sub. case map_of usageTracker sub of
                             None \<Rightarrow> False
                           | Some usage \<Rightarrow> postsThisWeek usage = 0) subreddits;
          selected =
            (if length availableSubreddits = 0 then
               (case sort_by (\<lambda>a b. lastPostIndex a - lastPostIndex b) (map snd usageTracker) of
                  [] \<Rightarrow> Inl TypeError
                | u # _ \<Rightarrow> Inr (tracked_subreddit u))
             else Inr (availableSubreddits ! (postIndex mod length availableSubreddits)))
      in case selected of
           Inl e \<Rightarrow> Inl e
         | Inr selectedSubreddit \<Rightarrow>
             (case map_of usageTracker selectedSubreddit of
                None \<Rightarrow> Inl TypeError
              | Some usage \<Rightarrow>
                  Inr (selectedSubreddit,
                       AList.update selectedSubreddit
                         (usage\<lparr>postsThisWeek := postsThisWeek usage + 1,
                                 lastPostIndex := int postIndex\<rparr>) usageTracker)))"

text \<open>The subreddits one strategy object returns for the post indices
  \<open>i, i + 1, \<dots>, i + n - 1\<close> of a week of \<open>totalPosts\<close> posts.\<close>

fun selectSubreddits ::
  "SubredditStrategy \<Rightarrow> string list \<Rightarrow> nat \<Rightarrow> nat \<Rightarrow> nat \<Rightarrow> error + string list" where
  "selectSubreddits usageTracker subreddits totalPosts i 0 = Inr []"
| "selectSubreddits usageTracker subreddits totalPosts i (Suc n) =
     (case selectSubreddit usageTracker subreddits i totalPosts of
        Inl e \<Rightarrow> Inl e
      | Inr (sub, usageTracker) \<Rightarrow>
          (case selectSubreddits usageTracker subreddits totalPosts (Suc i) n of
             Inl e \<Rightarrow> Inl e
           | Inr subs \<Rightarrow> Inr (sub # subs)))"

text \<open>The subreddits a tracker has at least one post for.\<close>

definition postedSubreddits :: "SubredditStrategy \<Rightarrow> string set" where
  "postedSubreddits usageTracker =
     {sub. \<exists>usage. map_of usageTracker sub = Some usage \<and> postsThisWeek usage > 0}"

fun starts_with :: "string \<Rightarrow> string \<Rightarrow> bool" where
  "starts_with s [] = True"
| "starts_with [] (p # ps) = False"
| "starts_with (c # cs) (p # ps) = (c = p \<and> starts_with cs ps)"

text \<open>\<open>String.prototype.includes\<close>.\<close>

fun string_includes :: "string \<Rightarrow> string \<Rightarrow> bool" where
  "string_includes [] sub = (sub = [])"
| "string_includes (c # cs) sub = (starts_with (c # cs) sub \<or> string_includes cs sub)"

definition icpMappings :: "(string \<times> string list) list" where
  "icpMappings =
     [(''consultants'', [''consulting'', ''consultant'', ''professional services'']),
      (''educators'', [''teacher'', ''professor'', ''education'', ''university'']),
      (''marketers'', [''marketing'', ''marketer'', ''brand'', ''growth'']),
      (''sales teams'', [''sales'', ''business development'', ''account executive'']),
      (''executives'', [''executive'', ''ceo'', ''leadership'', ''c-suite'']),
      (''designers'', [''designer'', ''design'', ''creative'']),
      (''developers'', [''developer'', ''engineer'', ''programmer'', ''software''])]"

definition mapICPToSubreddit :: "string \<Rightarrow> string \<Rightarrow> string option" where
  "mapICPToSubreddit subreddit companyDescription =
     (let description = toLowerCase companyDescription;
          subredditLower = toLowerCase subreddit
      in map_option fst
           (find (\<lambda>(segment, keywords).
                    list_ex (\<lambda>kw. string_includes subredditLower kw) keywords
                    \<and> list_ex (\<lambda>kw. string_includes description kw) keywords) icpMappings))"

section \<open>Keyword rotation (\<open>lib/algorithm/keyword-strategy\<close>)\<close>

record KeywordUsageTracker =
  keywordId :: string
  usageCount :: nat
  lastUsedPostIndex :: int

text \<open>The two fields of the class: the usage map and the set of combinations seen (a
  \<open>Set<string>\<close>, in insertion order).\<close>

record KeywordStrategy =
  keywordUsage :: "(string \<times> KeywordUsageTracker) list"
  keywordCombinations :: "string list"

definition initKeywordUsage ::
  "Keyword \<Rightarrow> (string \<times> KeywordUsageTracker) list \<Rightarrow> (string \<times> KeywordUsageTracker) list" where
  "initKeywordUsage kw usageTracker =
     (if map_of usageTracker (keyword_id kw) \<noteq> None then usageTracker
      else AList.update (keyword_id kw)
             \<lparr>keywordId = keyword_id kw, usageCount = 0, lastUsedPostIndex = - 1\<rparr> usageTracker)"

text \<open>The default comparison of \<open>Array.prototype.sort()\<close> on strings: by code units.\<close>

fun compareStrings :: "string \<Rightarrow> string \<Rightarrow> int" where
  "compareStrings [] [] = 0"
| "compareStrings [] (y # ys) = - 1"
| "compareStrings (x # xs) [] = 1"
| "compareStrings (x # xs) (y # ys) =
     (if x = y then compareStrings xs ys
      else if (of_char x :: nat) < of_char y then - 1 else 1)"

text \<open>\<open>keywords.map(k => k.keyword_id).sort().join(',')\<close>.\<close>

definition combinationKey :: "Keyword list \<Rightarrow> string" where
  "combinationKey kws = join '','' (sort_by compareStrings (map keyword_id kws))"

text \<open>\<open>usage.usageCount++; usage.lastUsedPostIndex = postIndex\<close> on the tracked entry.\<close>

definition markKeywordUsed ::
  "nat \<Rightarrow> Keyword \<Rightarrow> (string \<times> KeywordUsageTracker) list \<Rightarrow> (string \<times> KeywordUsageTracker) list" where
  "markKeywordUsed postIndex kw usageTracker =
     (case map_of usageTracker (keyword_id kw) of
        None \<Rightarrow> usageTracker
      | Some usage \<Rightarrow>
          AList.update (keyword_id kw)
            (usage\<lparr>usageCount := usageCount usage + 1, lastUsedPostIndex := int postIndex\<rparr>)
            usageTracker)"

text \<open>The first loop over the ranked keywords: stop at the target count, accept the
  first keyword always and a later one when the combination is new.\<close>

fun selectNewCombinations ::
  "nat \<Rightarrow> nat \<Rightarrow> string list \<Rightarrow> Keyword list
   \<Rightarrow> Keyword list \<times> (string \<times> KeywordUsageTracker) list
   \<Rightarrow> Keyword list \<times> (string \<times> KeywordUsageTracker) list" where
  "selectNewCombinations keywordCount postIndex combinations [] acc = acc"
| "selectNewCombinations keywordCount postIndex combinations (kw # sortedKeywords) (selectedKeywords, usageTracker) =
     (if length selectedKeywords \<ge> keywordCount then (selectedKeywords, usageTracker)
      else
        (let potentialCombination = combinationKey (selectedKeywords @ [kw])
         in if length selectedKeywords = 0 \<or> potentialCombination \<notin> set combinations
            then selectNewCombinations keywordCount postIndex combinations sortedKeywords
                   (selectedKeywords @ [kw], markKeywordUsed postIndex kw usageTracker)
            else selectNewCombinations keywordCount postIndex combinations sortedKeywords
                   (selectedKeywords, usageTracker)))"

text \<open>The second loop: fill up with the least-used keywords not selected yet.\<close>

fun fillLeastUsed ::
  "nat \<Rightarrow> nat \<Rightarrow> Keyword list
   \<Rightarrow> Keyword list \<times> (string \<times> KeywordUsageTracker) list
   \<Rightarrow> Keyword list \<times> (string \<times> KeywordUsageTracker) list" where
  "fillLeastUsed keywordCount postIndex [] acc = acc"
| "fillLeastUsed keywordCount postIndex (kw # sortedKeywords) (selectedKeywords, usageTracker) =
     (if length selectedKeywords \<ge> keywordCount then (selectedKeywords, usageTracker)
      else if find (\<lambda>k. keyword_id k = keyword_id kw) selectedKeywords = None
      then fillLeastUsed keywordCount postIndex sortedKeywords
             (selectedKeywords @ [kw], markKeywordUsed postIndex kw usageTracker)
      else fillLeastUsed keywordCount postIndex sortedKeywords (selectedKeywords, usageTracker))"

text \<open>Each keyword with its usage entry; \<open>None\<close> when an entry is missing, where the
  source reads a field of \<open>undefined\<close>.\<close>

fun withUsage :: "('k \<times> 'u) list \<Rightarrow> ('a \<Rightarrow> 'k) \<Rightarrow> 'a list \<Rightarrow> ('a \<times> 'u) list option" where
  "withUsage usageTracker key [] = Some []"
| "withUsage usageTracker key (x # xs) =
     (case map_of usageTracker (key x) of
        None \<Rightarrow> None
      | Some usage \<Rightarrow> map_option ((#) (x, usage)) (withUsage usageTracker key xs))"

definition selectKeywordsForPost ::
  "KeywordStrategy \<Rightarrow> Keyword list \<Rightarrow> nat \<Rightarrow> string \<Rightarrow> rat
   \<Rightarrow> error + (Keyword list \<times> KeywordStrategy)" where
  "selectKeywordsForPost strategy availableKeywords postIndex subreddit r =
     (let usageTracker = fold initKeywordUsage availableKeywords (keywordUsage strategy);
          keywordCount = (if r < 6 / 10 then 2 else 3 :: nat)
      in case withUsage usageTracker keyword_id availableKeywords of
           None \<Rightarrow> Inl TypeError
         | Some tracked \<Rightarrow>
             (let sortedKeywords = map fst
                    (sort_by (\<lambda>a b.
                        if usageCount (snd a) \<noteq> usageCount (snd b)
                        then int (usageCount (snd a)) - int (usageCount (snd b))
                        else lastUsedPostIndex (snd a) - lastUsedPostIndex (snd b)) tracked);
                  (selectedKeywords, usageTracker) =
                    selectNewCombinations keywordCount postIndex (keywordCombinations strategy)
                      sortedKeywords ([], usageTracker);
                  (selectedKeywords, usageTracker) =
                    (if length selectedKeywords < keywordCount
                     then fillLeastUsed keywordCount postIndex sortedKeywords
                            (selectedKeywords, usageTracker)
                     else (selectedKeywords, usageTracker));
                  combination = combinationKey selectedKeywords
              in Inr (selectedKeywords,
                      \<lparr>keywordUsage = usageTracker,
                       keywordCombinations =
                         (if combination \<in> set (keywordCombinations strategy)
                          then keywordCombinations strategy
                          else keywordCombinations strategy @ [combination])\<rparr>)))"

section \<open>Persona rotation (\<open>lib/algorithm/persona-matcher\<close>)\<close>

record PersonaUsageTracker =
  tracked_username :: string
  postCount :: nat
  commentCount :: nat
  lastUsedIndex :: int

type_synonym PersonaMatcher = "(string \<times> PersonaUsageTracker) list"

definition initPersonaUsage :: "Persona \<Rightarrow> PersonaMatcher \<Rightarrow> PersonaMatcher" where
  "initPersonaUsage p usageTracker =
     (if map_of usageTracker (username p) \<noteq> None then usageTracker
      else AList.update (username p)
             \<lparr>tracked_username = username p, postCount = 0, commentCount = 0,
              lastUsedIndex = - 1\<rparr> usageTracker)"

definition selectPostAuthor ::
  "PersonaMatcher \<Rightarrow> Persona list \<Rightarrow> nat \<Rightarrow> error + (Persona \<times> PersonaMatcher)" where
  "selectPostAuthor usageTracker personas postIndex =
     (let usageTracker = fold initPersonaUsage personas usageTracker
      in case withUsage usageTracker username personas of
           None \<Rightarrow> Inl TypeError
         | Some tracked \<Rightarrow>
             (case sort_by (\<lambda>a b.
                      if postCount (snd a) \<noteq> postCount (snd b)
                      then int (postCount (snd a)) - int (postCount (snd b))
                      else lastUsedIndex (snd a) - lastUsedIndex (snd b)) tracked of
                [] \<Rightarrow> Inl TypeError
              | (selectedPersona, _) # _ \<Rightarrow>
                  (case map_of usageTracker (username selectedPersona) of
                     None \<Rightarrow> Inl TypeError
                   | Some usage \<Rightarrow>
                       Inr (selectedPersona,
                            AList.update (username selectedPersona)
                              (usage\<lparr>postCount := postCount usage + 1,
                                      lastUsedIndex := int postIndex\<rparr>) usageTracker))))"

text \<open>\<open>usage.commentCount++; usage.lastUsedIndex = postIndex\<close> for one selected
  commenter.\<close>

definition markCommentAuthor :: "nat \<Rightarrow> Persona \<Rightarrow> PersonaMatcher \<Rightarrow> PersonaMatcher" where
  "markCommentAuthor postIndex persona usageTracker =
     (case map_of usageTracker (username persona) of
        None \<Rightarrow> usageTracker
      | Some usage \<Rightarrow>
          AList.update (username persona)
            (usage\<lparr>commentCount := commentCount usage + 1, lastUsedIndex := int postIndex\<rparr>)
            usageTracker)"

text \<open>\<open>selectCommentAuthors\<close> draws twice, unless the post author is the only persona.
  A persona of the pool without a usage entry makes the source read a field of
  \<open>undefined\<close>: in the comparator when the pool has two personas or more, in the update
  loop when it has one. The local \<open>commentCount\<close> is \<open>commentCount'\<close>, the name being the
  tracker's field.\<close>

definition selectCommentAuthors ::
  "PersonaMatcher \<Rightarrow> Persona list \<Rightarrow> Persona \<Rightarrow> nat \<Rightarrow> draws
   \<Rightarrow> error + (Persona list \<times> PersonaMatcher \<times> draws)" where
  "selectCommentAuthors usageTracker personas postAuthor postIndex s =
     (let availablePersonas = filter (\<lambda>p. username p \<noteq> username postAuthor) personas
      in if length availablePersonas = 0 then Inr ([postAuthor], usageTracker, s)
         else
           (let commentCount' = min (2 + floor_random (next_draw s) 3) (int (length availablePersonas));
                s = rest s
            in case withUsage usageTracker username availablePersonas of
                 None \<Rightarrow> Inl TypeError
               | Some tracked \<Rightarrow>
                   (let sortedPersonas = sort_by (\<lambda>a b.
                            if commentCount (snd a) \<noteq> commentCount (snd b)
                            then int (commentCount (snd a)) - int (commentCount (snd b))
                            else lastUsedIndex (snd a) - lastUsedIndex (snd b)) tracked;
                        selectedPersonas = map fst (take (nat commentCount') sortedPersonas);
                        usageTracker = fold (markCommentAuthor postIndex) selectedPersonas usageTracker;
                        opJoins = (next_draw s < 7 / 10);
                        s = rest s
                    in if opJoins \<and> length selectedPersonas > 0 then
                         (case map_of usageTracker (username postAuthor) of
                            None \<Rightarrow> Inl TypeError
                          | Some postAuthorUsage \<Rightarrow>
                              Inr (selectedPersonas @ [postAuthor],
                                   AList.update (username postAuthor)
                                     (postAuthorUsage\<lparr>commentCount := commentCount postAuthorUsage + 1\<rparr>)
                                     usageTracker, s))
                       else Inr (selectedPersonas, usageTracker, s))))"

text \<open>A sequence of draws that starts with the given ones and goes on with 0.\<close>

definition draws_of :: "rat list \<Rightarrow> draws" where
  "draws_of rs = (\<lambda>n. if n < length rs then rs ! n else 0)"

section \<open>Content generator (\<open>lib/algorithm/content-generator\<close>)\<close>

text \<open>The fields of the plans, of the requests and of the input carry a prefix where
  their names are parameters or fields elsewhere.\<close>

record PostPlan =
  plan_postIndex :: nat
  plan_subreddit :: string
  plan_author :: Persona
  plan_timestamp :: Date
  plan_keywords :: "Keyword list"
  plan_icpSegment :: "string option"

datatype CommentPosition = First | Reply | Late

record CommentPlan =
  position :: CommentPosition
  comment_author :: Persona
  parentCommentId :: "string option"
  shouldMentionProduct :: bool
  timingOffset :: string

record CalendarInput =
  input_company :: CompanyInfo
  input_personas :: "Persona list"
  input_keywords :: "Keyword list"
  input_weekNumber :: "nat option"

record ContentCalendar =
  weekNumber :: nat
  companyName :: string
  calendar_posts :: "GeneratedPost list"
  calendar_comments :: "GeneratedComment list"
  generatedAt :: Date

record GeneratePostRequest =
  pr_persona :: Persona
  pr_subreddit :: string
  pr_keywords :: "Keyword list"
  pr_company :: CompanyInfo
  pr_icpSegment :: "string option"

record PostGenerationResult =
  result_title :: string
  result_body :: string

record PostContext =
  ctx_title :: string
  ctx_body :: string
  ctx_author_username :: string

record ParentContext =
  parent_text :: string
  parent_username :: string

record GenerateCommentRequest =
  cr_persona :: Persona
  cr_post :: PostContext
  cr_parentComment :: "ParentContext option"
  cr_company :: CompanyInfo
  cr_commentPosition :: CommentPosition
  cr_shouldMentionProduct :: bool

text \<open>The text-generation collaborator. A call either fails with a message (the
  promise rejects) or returns a result; the first argument is the number of calls made
  before, so that two calls with equal requests may answer differently.\<close>

record IAiService =
  generatePost :: "nat \<Rightarrow> GeneratePostRequest \<Rightarrow> string + PostGenerationResult"
  generateComment :: "nat \<Rightarrow> GenerateCommentRequest \<Rightarrow> string + string"

text \<open>The three strategy objects of the generator.\<close>

record ContentGenerator =
  keywordStrategy :: KeywordStrategy
  subredditStrategy :: SubredditStrategy
  personaMatcher :: PersonaMatcher

text \<open>What a run reads from outside: the collaborator, the random draws, and the clock
  at the start (\<open>getCurrentWeekStart\<close>) and at the end (\<open>generatedAt\<close>).\<close>

record Environment =
  aiService :: IAiService
  random :: draws
  clockAtStart :: Date
  clockAtEnd :: Date

definition getCurrentWeekStart :: "Date \<Rightarrow> Date" where
  "getCurrentWeekStart now = startOfWeek now"

text \<open>The body of the loop of \<open>createWeeklyPostPlan\<close>, for the post indices of the list.\<close>

fun planPosts ::
  "CalendarInput \<Rightarrow> Date \<Rightarrow> nat list \<Rightarrow> ContentGenerator \<Rightarrow> draws
   \<Rightarrow> error + (PostPlan list \<times> ContentGenerator \<times> draws)" where
  "planPosts input weekStart [] g s = Inr ([], g, s)"
| "planPosts input weekStart (i # indices) g s =
     (let company = input_company input;
          postsPerWeek' = postsPerWeek company
      in case selectSubreddit (subredditStrategy g) (company_subreddits company) i postsPerWeek' of
           Inl e \<Rightarrow> Inl e
         | Inr (subreddit, subredditStrategy') \<Rightarrow>
       (case selectKeywordsForPost (keywordStrategy g) (input_keywords input) i subreddit (next_draw s) of
           Inl e \<Rightarrow> Inl e
         | Inr (selectedKeywords, keywordStrategy') \<Rightarrow>
       (case selectPostAuthor (personaMatcher g) (input_personas input) i of
           Inl e \<Rightarrow> Inl e
         | Inr (author, personaMatcher') \<Rightarrow>
             (let (timestamp, s) = generatePostTime weekStart i postsPerWeek' (rest s);
                  icpSegment = mapICPToSubreddit subreddit (description company);
                  plan = \<lparr>plan_postIndex = i, plan_subreddit = subreddit, plan_author = author,
                          plan_timestamp = timestamp, plan_keywords = selectedKeywords,
                          plan_icpSegment = icpSegment\<rparr>
              in case planPosts input weekStart indices
                        \<lparr>keywordStrategy = keywordStrategy', subredditStrategy = subredditStrategy',
                         personaMatcher = personaMatcher'\<rparr> s of
                   Inl e \<Rightarrow> Inl e
                 | Inr (plans, g, s) \<Rightarrow> Inr (plan # plans, g, s)))))"

definition createWeeklyPostPlan ::
  "CalendarInput \<Rightarrow> Date \<Rightarrow> ContentGenerator \<Rightarrow> draws
   \<Rightarrow> error + (PostPlan list \<times> ContentGenerator \<times> draws)" where
  "createWeeklyPostPlan input weekStart g s =
     planPosts input weekStart [0 ..< postsPerWeek (input_company input)] g s"

text \<open>\<open>generatePosts\<close>: one request per plan, in order; the first failure aborts.\<close>

fun generatePosts :: "IAiService \<Rightarrow> CalendarInput \<Rightarrow> nat \<Rightarrow> PostPlan list \<Rightarrow> error + GeneratedPost list" where
  "generatePosts ai input n [] = Inr []"
| "generatePosts ai input n (plan # plans) =
     (case generatePost ai n
             \<lparr>pr_persona = plan_author plan, pr_subreddit = plan_subreddit plan,
              pr_keywords = plan_keywords plan, pr_company = input_company input,
              pr_icpSegment = plan_icpSegment plan\<rparr> of
        Inl msg \<Rightarrow> Inl (GenerationError msg)
      | Inr result \<Rightarrow>
          (case generatePosts ai input (Suc n) plans of
             Inl e \<Rightarrow> Inl e
           | Inr posts \<Rightarrow>
               Inr (\<lparr>post_id = ''P'' @ nat_str (plan_postIndex plan + 1),
                     post_subreddit = plan_subreddit plan,
                     title = result_title result,
                     body = result_body result,
                     author_username = username (plan_author plan),
                     timestamp = plan_timestamp plan,
                     keyword_ids = map keyword_id (plan_keywords plan)\<rparr> # posts)))"

text \<open>The body of the loop of \<open>createCommentPlans\<close> for the persona at position \<open>i\<close>.
  The draw of the second branch is made whenever \<open>i\<close> is 1, whatever the branch taken.\<close>

definition planComment :: "Persona \<Rightarrow> nat \<Rightarrow> Persona \<Rightarrow> draws \<Rightarrow> CommentPlan \<times> draws" where
  "planComment postAuthor i persona s =
     (let (position', parentCommentId', shouldMentionProduct', s) =
            (if i = 0 then (First, None, next_draw s < 7 / 10, rest s)
             else if i = 1 \<and> next_draw s < 6 / 10 then
               (Reply, Some ''C1'', next_draw (rest s) < 3 / 10, rest (rest s))
             else
               (let s = (if i = 1 then rest s else s)
                in if username persona = username postAuthor then (Reply, Some ''C1'', False, s)
                   else (Late, None, next_draw s < 4 / 10, rest s)))
      in (\<lparr>position = position', comment_author = persona, parentCommentId = parentCommentId',
           shouldMentionProduct = shouldMentionProduct',
           timingOffset = (if position' = First then ''+21min''
                           else if position' = Reply then ''+16min'' else ''+2h'')\<rparr>, s))"

text \<open>The loop of \<open>createCommentPlans\<close> from position \<open>i\<close> on.\<close>

fun planComments :: "Persona \<Rightarrow> nat \<Rightarrow> Persona list \<Rightarrow> draws \<Rightarrow> CommentPlan list \<times> draws" where
  "planComments postAuthor i [] s = ([], s)"
| "planComments postAuthor i (persona # personas) s =
     (let (plan, s) = planComment postAuthor i persona s;
          (plans, s) = planComments postAuthor (i + 1) personas s
      in (plan # plans, s))"

definition createCommentPlans ::
  "Persona list \<Rightarrow> nat \<Rightarrow> Persona \<Rightarrow> draws \<Rightarrow> CommentPlan list \<times> draws" where
  "createCommentPlans personas targetCount postAuthor s =
     (let actualCount = min targetCount (length personas)
      in planComments postAuthor 0 (take actualCount personas) s)"

text \<open>The body of the inner loop of \<open>generateComments\<close>: the comment made from one
  plan, with the id \<open>C\<close>\<open>commentIdCounter\<close>.\<close>

definition generateOneComment ::
  "IAiService \<Rightarrow> CalendarInput \<Rightarrow> GeneratedPost \<Rightarrow> CommentPlan
   \<Rightarrow> GeneratedComment list \<Rightarrow> nat \<Rightarrow> draws
   \<Rightarrow> error + (GeneratedComment \<times> draws)" where
  "generateOneComment ai input post commentPlan allComments commentIdCounter s =
     (let parentComment =
            (if truthy (parentCommentId commentPlan)
             then find (\<lambda>c. Some (comment_id c) = parentCommentId commentPlan) allComments
             else None)
      in case generateComment ai (commentIdCounter - 1)
                \<lparr>cr_persona = comment_author commentPlan,
                 cr_post = \<lparr>ctx_title = title post, ctx_body = body post,
                            ctx_author_username = author_username post\<rparr>,
                 cr_parentComment =
                   map_option (\<lambda>c. \<lparr>parent_text = comment_text c, parent_username = c_username c\<rparr>)
                     parentComment,
                 cr_company = input_company input,
                 cr_commentPosition = position commentPlan,
                 cr_shouldMentionProduct = shouldMentionProduct commentPlan\<rparr> of
           Inl msg \<Rightarrow> Inl (GenerationError msg)
         | Inr commentText \<Rightarrow>
             (let (commentTimestamp, s) =
                    (if position commentPlan = First
                     then (generateFirstCommentTime (timestamp post) (next_draw s), rest s)
                     else if position commentPlan = Reply \<and> parentComment \<noteq> None
                     then (generateReplyCommentTime (c_timestamp (the parentComment)) (next_draw s),
                           rest s)
                     else (generateLateCommentTime (timestamp post) (next_draw s) (next_draw (rest s)),
                           rest (rest s)))
              in Inr (\<lparr>comment_id = ''C'' @ nat_str commentIdCounter,
                       c_post_id = post_id post,
                       parent_comment_id = parentCommentId commentPlan,
                       comment_text = commentText,
                       c_username = username (comment_author commentPlan),
                       c_timestamp = commentTimestamp\<rparr>, s)))"

text \<open>The inner loop of \<open>generateComments\<close>: the comments of one post, appended to
  \<open>allComments\<close>; \<open>commentIdCounter\<close> is the counter shared by all posts.\<close>

fun generatePostComments ::
  "IAiService \<Rightarrow> CalendarInput \<Rightarrow> GeneratedPost \<Rightarrow> CommentPlan list
   \<Rightarrow> GeneratedComment list \<Rightarrow> nat \<Rightarrow> draws
   \<Rightarrow> error + (GeneratedComment list \<times> nat \<times> draws)" where
  "generatePostComments ai input post [] allComments commentIdCounter s =
     Inr (allComments, commentIdCounter, s)"
| "generatePostComments ai input post (commentPlan # commentPlans) allComments commentIdCounter s =
     (case generateOneComment ai input post commentPlan allComments commentIdCounter s of
        Inl e \<Rightarrow> Inl e
      | Inr (comment, s) \<Rightarrow>
          generatePostComments ai input post commentPlans (allComments @ [comment])
            (commentIdCounter + 1) s)"

text \<open>The outer loop of \<open>generateComments\<close> from post \<open>i\<close> on.\<close>

fun generateCommentsFrom ::
  "IAiService \<Rightarrow> CalendarInput \<Rightarrow> PostPlan list \<Rightarrow> nat \<Rightarrow> GeneratedPost list
   \<Rightarrow> GeneratedComment list \<Rightarrow> nat \<Rightarrow> PersonaMatcher \<Rightarrow> draws
   \<Rightarrow> error + (GeneratedComment list \<times> PersonaMatcher \<times> draws)" where
  "generateCommentsFrom ai input postPlans i [] allComments commentIdCounter matcher s =
     Inr (allComments, matcher, s)"
| "generateCommentsFrom ai input postPlans i (post # posts) allComments commentIdCounter matcher s =
     (if i \<ge> length postPlans then Inl TypeError
      else
        (let plan = postPlans ! i;
             commentCount' = nat (2 + floor_random (next_draw s) 3)
         in case selectCommentAuthors matcher (input_personas input) (plan_author plan) i (rest s) of
              Inl e \<Rightarrow> Inl e
            | Inr (commentingPersonas, matcher, s) \<Rightarrow>
                (let (commentPlans, s) =
                       createCommentPlans commentingPersonas commentCount' (plan_author plan) s
                 in case generatePostComments ai input post commentPlans allComments
                           commentIdCounter s of
                      Inl e \<Rightarrow> Inl e
                    | Inr (allComments, commentIdCounter, s) \<Rightarrow>
                        generateCommentsFrom ai input postPlans (i + 1) posts allComments
                          commentIdCounter matcher s)))"

definition generateComments ::
  "IAiService \<Rightarrow> CalendarInput \<Rightarrow> GeneratedPost list \<Rightarrow> PostPlan list \<Rightarrow> PersonaMatcher \<Rightarrow> draws
   \<Rightarrow> error + (GeneratedComment list \<times> PersonaMatcher \<times> draws)" where
  "generateComments ai input posts postPlans matcher s =
     generateCommentsFrom ai input postPlans 0 posts [] 1 matcher s"

text \<open>The strategies after \<open>reset()\<close>.\<close>

definition resetGenerator :: ContentGenerator where
  "resetGenerator =
     \<lparr>keywordStrategy = \<lparr>keywordUsage = [], keywordCombinations = []\<rparr>,
      subredditStrategy = [], personaMatcher = []\<rparr>"

definition generate :: "Environment \<Rightarrow> CalendarInput \<Rightarrow> error + ContentCalendar" where
  "generate env input =
     (let weekStart = getCurrentWeekStart (clockAtStart env)
      in case createWeeklyPostPlan input weekStart resetGenerator (random env) of
           Inl e \<Rightarrow> Inl e
         | Inr (postPlans, g, s) \<Rightarrow>
       (case generatePosts (aiService env) input 0 postPlans of
           Inl e \<Rightarrow> Inl e
         | Inr posts \<Rightarrow>
       (case generateComments (aiService env) input posts postPlans (personaMatcher g) s of
           Inl e \<Rightarrow> Inl e
         | Inr (comments, matcher, s) \<Rightarrow>
             (let (posts, comments) = fixTimestampIssues posts comments;
                  validation = validateContentCalendar posts comments
              in if \<not> isValid validation
                 then Inl (ValidationError
                        (''Content validation failed: '' @ join '', '' (errors validation)))
                 else Inr \<lparr>weekNumber = (case input_weekNumber input of
                                           None \<Rightarrow> 1
                                         | Some n \<Rightarrow> if n = 0 then 1 else n),
                           companyName = name (input_company input),
                           calendar_posts = posts,
                           calendar_comments = comments,
                           generatedAt = clockAtEnd env\<rparr>))))"

section \<open>Auxiliary notions for the generator\<close>

text \<open>The posts and comments that phases 1 to 3 of \<open>generate\<close> assemble, before the
  timestamp fixes and the validation.\<close>

definition assembledContent ::
  "Environment \<Rightarrow> CalendarInput \<Rightarrow> error + (GeneratedPost list \<times> GeneratedComment list)" where
  "assembledContent env input =
     (case createWeeklyPostPlan input (getCurrentWeekStart (clockAtStart env)) resetGenerator
             (random env) of
        Inl e \<Rightarrow> Inl e
      | Inr (postPlans, g, s) \<Rightarrow>
          (case generatePosts (aiService env) input 0 postPlans of
             Inl e \<Rightarrow> Inl e
           | Inr posts \<Rightarrow>
               (case generateComments (aiService env) input posts postPlans (personaMatcher g) s of
                  Inl e \<Rightarrow> Inl e
                | Inr (comments, matcher, s) \<Rightarrow> Inr (posts, comments))))"

text \<open>What holds of \<open>allComments\<close> and \<open>commentIdCounter\<close> throughout \<open>generateComments\<close>: the
  ids are \<open>C1, C2, \<dots>\<close> in order, every parent is \<open>null\<close> or \<open>C1\<close>, and the first comment
  has no parent.\<close>

definition threadInvariant :: "GeneratedComment list \<Rightarrow> nat \<Rightarrow> bool" where
  "threadInvariant allComments commentIdCounter \<longleftrightarrow>
     1 \<le> commentIdCounter
     \<and> map comment_id allComments = map (\<lambda>k. ''C'' @ nat_str k) [1 ..< commentIdCounter]
     \<and> list_all (\<lambda>p. p = None \<or> p = Some ''C1'') (map parent_comment_id allComments)
     \<and> (case allComments of [] \<Rightarrow> True | c # _ \<Rightarrow> parent_comment_id c = None)"

section \<open>Example inputs\<close>

text \<open>A post at 14:00 and a comment thirty seconds later.\<close>

definition examplePost :: GeneratedPost where
  "examplePost = \<lparr>post_id = ''P1'', post_subreddit = ''r/PowerPoint'', title = ''Deck tools'',
     body = ''Which one?'', author_username = ''riley_ops'', timestamp = 50400000,
     keyword_ids = [''K1'', ''K2'']\<rparr>"

definition quickComment :: GeneratedComment where
  "quickComment = \<lparr>comment_id = ''C1'', c_post_id = ''P1'', parent_comment_id = None,
     comment_text = ''Try it'', c_username = ''emily_econ'', c_timestamp = 50430000\<rparr>"

text \<open>A comment forty seconds before the same post.\<close>

definition earlyComment :: GeneratedComment where
  "earlyComment = \<lparr>comment_id = ''C2'', c_post_id = ''P1'', parent_comment_id = None,
     comment_text = ''First'', c_username = ''jordan_consults'', c_timestamp = 50360000\<rparr>"

text \<open>Five personas, the first of them the author of post 0.\<close>

definition fivePersonas :: "Persona list" where
  "fivePersonas = map (\<lambda>u. \<lparr>username = u, backstory = ''Writes about slides.''\<rparr>)
     [''riley_ops'', ''jordan_consults'', ''emily_econ'', ''alex_sells'', ''priya_pm'']"

text \<open>The matcher after \<open>selectPostAuthor\<close> has chosen the first of the five for post 0.\<close>

definition matcherAfterFirstPost :: PersonaMatcher where
  "matcherAfterFirstPost =
     (''riley_ops'', \<lparr>tracked_username = ''riley_ops'', postCount = 1, commentCount = 0, lastUsedIndex = 0\<rparr>)
     # map (\<lambda>u. (u, \<lparr>tracked_username = u, postCount = 0, commentCount = 0, lastUsedIndex = - 1\<rparr>))
         [''jordan_consults'', ''emily_econ'', ''alex_sells'', ''priya_pm'']"

text \<open>The scenario of the specification: two subreddits, two posts a week, three
  personas and three keywords; a collaborator that always answers.\<close>

definition exampleKeywords :: "Keyword list" where
  "exampleKeywords =
     [\<lparr>keyword_id = ''K1'', keyword = ''best ai presentation maker''\<rparr>,
      \<lparr>keyword_id = ''K2'', keyword = ''alternatives to PowerPoint''\<rparr>,
      \<lparr>keyword_id = ''K3'', keyword = ''slide deck automation''\<rparr>]"

definition exampleAi :: IAiService where
  "exampleAi =
     \<lparr>generatePost = (\<lambda>n req. Inr \<lparr>result_title = ''Looking for advice on '' @ pr_subreddit req,
                                     result_body = ''Post number '' @ nat_str n\<rparr>),
      generateComment = (\<lambda>n req. Inr (''Comment by '' @ username (cr_persona req)))\<rparr>"

definition exampleInput :: CalendarInput where
  "exampleInput =
     \<lparr>input_company = \<lparr>name = ''Slideforge'', website = ''https://slideforge.ai'',
                       description = ''AI presentation maker for consultants'',
                       company_subreddits = [''r/PowerPoint'', ''r/GoogleSlides''],
                       postsPerWeek = 2\<rparr>,
      input_personas = [\<lparr>username = ''riley_ops'', backstory = ''ops lead''\<rparr>,
                        \<lparr>username = ''jordan_consults'', backstory = ''consultant''\<rparr>,
                        \<lparr>username = ''emily_econ'', backstory = ''student''\<rparr>],
      input_keywords = exampleKeywords,
      input_weekNumber = None\<rparr>"

text \<open>Every draw is 1/2; the run starts on Monday 8 December 2025, 13:20.\<close>

definition exampleEnv :: Environment where
  "exampleEnv = \<lparr>aiService = exampleAi, random = (\<lambda>_. 1 / 2),
                  clockAtStart = 1765200000000, clockAtEnd = 1765200060000\<rparr>"

text \<open>The calendar of that run.\<close>

definition exampleCalendar :: ContentCalendar where
  "exampleCalendar =
    \<lparr>weekNumber = 1, companyName = ''Slideforge'',
        calendar_posts =
          [\<lparr>post_id = ''P1'', post_subreddit = ''r/PowerPoint'',
              title = ''Looking for advice on r/PowerPoint'',
              body = ''Post number 0'', author_username = ''riley_ops'',
              timestamp = 1765207800000, keyword_ids = [''K1'', ''K2'']\<rparr>,
           \<lparr>post_id = ''P2'', post_subreddit = ''r/GoogleSlides'',
              title = ''Looking for advice on r/GoogleSlides'',
              body = ''Post number 1'',
              author_username = ''jordan_consults'',
              timestamp = 1765467000000, keyword_ids = [''K3'', ''K1'']\<rparr>],
        calendar_comments =
          [\<lparr>comment_id = ''C1'', c_post_id = ''P1'',
              parent_comment_id = None,
              comment_text = ''Comment by emily_econ'',
              c_username = ''emily_econ'', c_timestamp = 1765210020000\<rparr>,
           \<lparr>comment_id = ''C2'', c_post_id = ''P1'',
              parent_comment_id = Some ''C1'',
              comment_text = ''Comment by jordan_consults'',
              c_username = ''jordan_consults'',
              c_timestamp = 1765211040000\<rparr>,
           \<lparr>comment_id = ''C3'', c_post_id = ''P1'',
              parent_comment_id = Some ''C1'',
              comment_text = ''Comment by riley_ops'',
              c_username = ''riley_ops'', c_timestamp = 1765211040000\<rparr>,
           \<lparr>comment_id = ''C4'', c_post_id = ''P2'',
              parent_comment_id = None,
              comment_text = ''Comment by riley_ops'',
              c_username = ''riley_ops'', c_timestamp = 1765469220000\<rparr>,
           \<lparr>comment_id = ''C5'', c_post_id = ''P2'',
              parent_comment_id = Some ''C1'',
              comment_text = ''Comment by emily_econ'',
              c_username = ''emily_econ'', c_timestamp = 1765467900000\<rparr>,
           \<lparr>comment_id = ''C6'', c_post_id = ''P2'',
              parent_comment_id = Some ''C1'',
              comment_text = ''Comment by jordan_consults'',
              c_username = ''jordan_consults'',
              c_timestamp = 1765467900000\<rparr>],
        generatedAt = 1765200060000\<rparr>"


text \<open>The same scenario with a single subreddit for the two posts.\<close>

definition overpostingInput :: CalendarInput where
  "overpostingInput =
     exampleInput\<lparr>input_company := (input_company exampleInput)\<lparr>company_subreddits := [''r/PowerPoint'']\<rparr>\<rparr>"

section \<open>Facts about the timestamp model\<close>

lemma hours_via_minutes: "d div 3600000 = (d div 60000) div 60" for d :: int
proof -
  have "d div (60000 * 60) = (d div 60000) div 60" by (rule zdiv_zmult2_eq) simp
  then show ?thesis by simp
qed



lemma minutes_setMinutes: "setMinutes d m div 60000 = 60 * (d div 60000 div 60) + m"
proof -
  have "setMinutes d m = d + (m - (d div 60000) mod 60) * 60000"
    by (simp add: setMinutes_def getMinutes_def)
  then have "setMinutes d m div 60000 = d div 60000 + (m - (d div 60000) mod 60)"
    by (simp only: div_mult_self1)
  also have "\<dots> = 60 * (d div 60000 div 60) + m"
    by (simp add: minus_mod_eq_mult_div [symmetric])
  finally show ?thesis .
qed


lemma minutes_addDays: "addDays d n div 60000 = d div 60000 + n * 1440"
proof -
  have "addDays d n = d + (n * 1440) * 60000" by (simp add: addDays_def)
  then show ?thesis by (simp only: div_mult_self1)
qed

lemma div_mod_60:
  "0 \<le> m \<Longrightarrow> m < 60 \<Longrightarrow> (60 * a + m) div 60 = a \<and> (60 * a + m) mod 60 = m" for a m :: int
  by (simp add: div_pos_pos_trivial)



lemma getHours_setMinutes: "0 \<le> m \<Longrightarrow> m < 60 \<Longrightarrow> getHours (setMinutes d m) = getHours d"
  unfolding getHours_def hours_via_minutes minutes_setMinutes by (simp add: div_mod_60)






lemma getHours_addDays: "getHours (addDays d n) = getHours d"
proof -
  have "(d div 60000 + n * 1440) div 60 = d div 60000 div 60 + n * 24"
  proof -
    have "d div 60000 + n * 1440 = d div 60000 + (n * 24) * 60" by simp
    then show ?thesis by (simp only: div_mult_self1)
  qed
  then show ?thesis
    unfolding getHours_def hours_via_minutes minutes_addDays by simp
qed






lemma floor_random_range:
  assumes "0 \<le> r" "r < 1" "0 < n"
  shows "0 \<le> floor_random r n" and "floor_random r n < n"
proof -
  have "0 \<le> r * of_int n" using assms by simp
  then show "0 \<le> floor_random r n" by (simp add: floor_random_def)
  have "r * of_int n < 1 * of_int n" using assms by (intro mult_strict_right_mono) simp_all
  then show "floor_random r n < n" by (simp add: floor_random_def floor_less_iff)
qed

lemma floor_rat_numeral: "\<lfloor>(numeral a :: rat) / numeral b\<rfloor> = numeral a div numeral b"
proof -
  have "\<lfloor>(of_int (numeral a) :: rat) / of_int (numeral b)\<rfloor> = numeral a div numeral b"
    by (rule floor_divide_of_int_eq)
  then show ?thesis by simp
qed

section \<open>Claims about the timestamp model\<close>






section \<open>Facts about sorting and usage maps\<close>

lemma set_insert_by: "set (insert_by cmp x xs) = insert x (set xs)"
  by (induction xs) auto

lemma set_sort_by: "set (sort_by cmp xs) = set xs"
  unfolding sort_by_def by (induction xs) (simp_all add: set_insert_by)

lemma length_insert_by: "length (insert_by cmp x xs) = Suc (length xs)"
  by (induction xs) auto

lemma length_sort_by: "length (sort_by cmp xs) = length xs"
  unfolding sort_by_def by (induction xs) (simp_all add: length_insert_by)

lemma withUsage_Some:
  "withUsage tr key xs = Some tracked \<Longrightarrow> map fst tracked = xs"
  by (induction xs arbitrary: tracked) (auto split: option.splits)

lemma withUsage_tracked:
  "\<forall>x \<in> set xs. map_of tr (key x) \<noteq> None \<Longrightarrow> \<exists>tracked. withUsage tr key xs = Some tracked"
  by (induction xs) auto

lemma markCommentAuthor_dom:
  "map_of (markCommentAuthor i p tr) k = None \<longleftrightarrow> map_of tr k = None"
  by (auto simp: markCommentAuthor_def update_conv' split: option.splits)

lemma fold_markCommentAuthor_dom:
  "map_of (fold (markCommentAuthor i) ps tr) k = None \<longleftrightarrow> map_of tr k = None"
  by (induction ps arbitrary: tr) (simp_all add: markCommentAuthor_dom)

lemma commentCount_range:
  assumes "0 \<le> r" "r < 1" "0 < n"
  shows "1 \<le> nat (min (2 + floor_random r 3) (int n))"
    and "nat (min (2 + floor_random r 3) (int n)) \<le> 4"
    and "nat (min (2 + floor_random r 3) (int n)) \<le> n"
  using floor_random_range [OF assms(1,2), of 3] assms(3) by auto

lemma digit_char_code: "n < 10 \<Longrightarrow> (of_char (digit_char n) :: nat) = 48 + n"
proof -
  assume "n < 10"
  then consider "n = 0" | "n = 1" | "n = 2" | "n = 3" | "n = 4" | "n = 5" | "n = 6" | "n = 7"
    | "n = 8" | "n = 9"
    by atomize_elim arith
  then show ?thesis by cases (simp_all add: digit_char_def)
qed

lemma digit_char_inj:
  assumes "a < 10" "b < 10" "digit_char a = digit_char b"
  shows "a = b"
proof -
  have "(of_char (digit_char a) :: nat) = of_char (digit_char b)" using assms(3) by simp
  then show ?thesis using digit_char_code [OF assms(1)] digit_char_code [OF assms(2)] by simp
qed

lemma nat_str_nonempty: "nat_str n \<noteq> []"
  by (subst nat_str.simps) simp

lemma nat_str_inj: "nat_str m = nat_str n \<Longrightarrow> m = n"
proof (induction m arbitrary: n rule: nat_str.induct)
  case (1 m)
  show ?case
  proof (cases "m < 10")
    case small_m: True
    show ?thesis
    proof (cases "n < 10")
      case True
      with small_m "1.prems" show ?thesis
        by (simp add: nat_str.simps [of m] nat_str.simps [of n] digit_char_inj)
    next
      case False
      with small_m "1.prems" nat_str_nonempty [of "n div 10"] show ?thesis
        by (simp add: nat_str.simps [of m] nat_str.simps [of n])
    qed
  next
    case big_m: False
    show ?thesis
    proof (cases "n < 10")
      case True
      with big_m "1.prems" nat_str_nonempty [of "m div 10"] show ?thesis
        by (simp add: nat_str.simps [of m] nat_str.simps [of n])
    next
      case False
      with big_m "1.prems" have eq: "nat_str (m div 10) = nat_str (n div 10)"
        and d: "digit_char (m mod 10) = digit_char (n mod 10)"
        by (simp_all add: nat_str.simps [of m] nat_str.simps [of n])
      from "1.IH" [OF big_m eq] have "m div 10 = n div 10" .
      moreover from d have "m mod 10 = n mod 10" by (intro digit_char_inj) simp_all
      ultimately show ?thesis by (metis div_mult_mod_eq)
    qed
  qed
qed

lemma nat_str_1: "nat_str 1 = ''1''"
  by (simp add: nat_str.simps digit_char_def)

section \<open>Claims about the business rules\<close>

lemma toFixed_small_days:
  assumes "0 \<le> x" "x < 1 / 20"
  shows "toFixed x 1 = ''0.0''"
proof -
  have "\<lfloor>x * 10 + 1 / 2\<rfloor> = 0"
    using assms by (simp add: floor_eq_iff)
  then show ?thesis using assms
    by (simp add: toFixed_def nat_str.simps digit_char_def)
qed

lemma sub_minute_invalid:
  assumes "0 < c - p" "c - p < 60000"
  shows "\<not> isValidCommentTime p c"
proof -
  have "(c - p) div 60000 = 0" using assms by (intro div_pos_pos_trivial) simp_all
  then show ?thesis by (simp add: isValidCommentTime_def getMinutesDifference_def)
qed

lemma sub_minute_messages:
  assumes "find (\<lambda>p. post_id p = c_post_id comment) posts = Some post"
    and "0 < c_timestamp comment - timestamp post"
    and "c_timestamp comment - timestamp post < 60000"
  shows "hd (fst (commentTimestampMessages posts comments comment))
          = ''Comment '' @ comment_id comment @ '' timestamp is too late (0.0 days after post)''"
    and "fst (commentTimestampMessages posts comments comment) \<noteq> []"
proof -
  let ?d = "(of_int (c_timestamp comment - timestamp post) :: rat) / (1000 * 60)"
  have pos: "0 \<le> ?d" using assms(2) by simp
  have "?d / 60 / 24 < 1 / 20" using assms(3) by simp
  moreover have "0 \<le> ?d / 60 / 24" using pos by simp
  ultimately have fx: "toFixed (?d / 60 / 24) 1 = ''0.0''" by (rule toFixed_small_days [rotated])
  have inv: "\<not> isValidCommentTime (timestamp post) (c_timestamp comment)"
    using assms(2,3) by (rule sub_minute_invalid)
  have nneg: "\<not> ?d < 0" using pos by simp
  show "hd (fst (commentTimestampMessages posts comments comment))
          = ''Comment '' @ comment_id comment @ '' timestamp is too late (0.0 days after post)''"
    using assms(1) inv nneg fx
    by (simp add: commentTimestampMessages_def Let_def split: prod.splits)
  show "fst (commentTimestampMessages posts comments comment) \<noteq> []"
    using assms(1) inv nneg
    by (simp add: commentTimestampMessages_def Let_def split: prod.splits)
qed

lemma negative_invalid:
  assumes "c - p < 0"
  shows "\<not> isValidCommentTime p c"
proof -
  have "(c - p) div 60000 < 0" using assms by (simp add: div_neg_pos_less0)
  then show ?thesis by (simp add: isValidCommentTime_def getMinutesDifference_def)
qed

lemma before_post_message:
  assumes "find (\<lambda>p. post_id p = c_post_id comment) posts = Some post"
  shows "(''Comment '' @ comment_id comment @ '' timestamp is before its post ('' @ x @ '' minutes early)'')
           \<in> set (fst (commentTimestampMessages posts comments comment))
         \<longleftrightarrow> c_timestamp comment - timestamp post < 0
             \<and> x = toFixed \<bar>(of_int (c_timestamp comment - timestamp post) :: rat) / (1000 * 60)\<bar> 0"
proof (cases "c_timestamp comment - timestamp post < 0")
  case True
  then have inv: "\<not> isValidCommentTime (timestamp post) (c_timestamp comment)"
    by (rule negative_invalid)
  have neg: "(of_int (c_timestamp comment - timestamp post) :: rat) / (1000 * 60) < 0"
    using True by (simp add: divide_neg_pos)
  show ?thesis
    using assms inv neg True
    by (auto simp: commentTimestampMessages_def Let_def split: prod.splits option.splits if_splits)
next
  case False
  then have nneg: "\<not> (of_int (c_timestamp comment - timestamp post) :: rat) / (1000 * 60) < 0"
    by (simp add: not_less)
  show ?thesis
    using assms nneg False
    by (auto simp: commentTimestampMessages_def Let_def split: prod.splits option.splits if_splits)
qed

text \<open>
  Claim C10, as amended. \<open>isValidCommentTime\<close> floors the difference to whole minutes,
  so a comment less than a minute after its post is not valid although it is strictly
  later. \<open>validateTimestamps\<close> then reports a blocking error for that comment, and the
  error is the "too late (0.0 days after post)" message. Among the messages pushed for a
  comment whose post is found, the "before its post" message occurs exactly when the
  difference is negative, with the rounded number of minutes, and it is then one of the
  errors of \<open>validateTimestamps\<close>.
\<close>

theorem validateTimestamps_sub_minute:
  assumes "comment \<in> set comments"
    and "find (\<lambda>p. post_id p = c_post_id comment) posts = Some post"
  shows "(0 < c_timestamp comment - timestamp post \<and> c_timestamp comment - timestamp post < 60000
          \<longrightarrow> \<not> isValidCommentTime (timestamp post) (c_timestamp comment)
            \<and> (''Comment '' @ comment_id comment @ '' timestamp is too late (0.0 days after post)'')
                  \<in> set (errors (validateTimestamps posts comments))
            \<and> \<not> isValid (validateTimestamps posts comments))
    \<and> (\<forall>x. (''Comment '' @ comment_id comment @ '' timestamp is before its post ('' @ x
               @ '' minutes early)'')
               \<in> set (fst (commentTimestampMessages posts comments comment))
             \<longleftrightarrow> c_timestamp comment - timestamp post < 0
                 \<and> x = toFixed \<bar>(of_int (c_timestamp comment - timestamp post) :: rat)
                                   / (1000 * 60)\<bar> 0)
    \<and> (c_timestamp comment - timestamp post < 0
          \<longrightarrow> (''Comment '' @ comment_id comment @ '' timestamp is before its post (''
                @ toFixed \<bar>(of_int (c_timestamp comment - timestamp post) :: rat) / (1000 * 60)\<bar> 0
                @ '' minutes early)'')
                \<in> set (errors (validateTimestamps posts comments)))"
proof (intro conjI impI allI)
  let ?m = "''Comment '' @ comment_id comment @ '' timestamp is too late (0.0 days after post)''"
  assume d: "0 < c_timestamp comment - timestamp post \<and> c_timestamp comment - timestamp post < 60000"
  then have d1: "0 < c_timestamp comment - timestamp post"
    and d2: "c_timestamp comment - timestamp post < 60000" by simp_all
  show "\<not> isValidCommentTime (timestamp post) (c_timestamp comment)"
    using d1 d2 by (rule sub_minute_invalid)
  have "?m \<in> set (fst (commentTimestampMessages posts comments comment))"
    using sub_minute_messages [OF assms(2) d1 d2, of comments]
    by (metis hd_in_set)
  then show mem: "?m \<in> set (errors (validateTimestamps posts comments))"
    using assms(1) by (auto simp: validateTimestamps_def Let_def)
  then have "errors (validateTimestamps posts comments) \<noteq> []" by auto
  then show "\<not> isValid (validateTimestamps posts comments)"
    by (simp add: validateTimestamps_def Let_def)
next
  fix x
  show "(''Comment '' @ comment_id comment @ '' timestamp is before its post ('' @ x
               @ '' minutes early)'')
               \<in> set (fst (commentTimestampMessages posts comments comment))
             \<longleftrightarrow> c_timestamp comment - timestamp post < 0
                 \<and> x = toFixed \<bar>(of_int (c_timestamp comment - timestamp post) :: rat)
                                   / (1000 * 60)\<bar> 0"
    by (rule before_post_message [OF assms(2)])
next
  assume "c_timestamp comment - timestamp post < 0"
  then have "(''Comment '' @ comment_id comment @ '' timestamp is before its post (''
                @ toFixed \<bar>(of_int (c_timestamp comment - timestamp post) :: rat) / (1000 * 60)\<bar> 0
                @ '' minutes early)'')
             \<in> set (fst (commentTimestampMessages posts comments comment))"
    by (simp only: before_post_message [OF assms(2)])
  then show "(''Comment '' @ comment_id comment @ '' timestamp is before its post (''
                @ toFixed \<bar>(of_int (c_timestamp comment - timestamp post) :: rat) / (1000 * 60)\<bar> 0
                @ '' minutes early)'')
                \<in> set (errors (validateTimestamps posts comments))"
    using assms(1) by (auto simp: validateTimestamps_def Let_def)
qed

lemma early_toFixed:
  "toFixed \<bar>(of_int (c_timestamp earlyComment - timestamp examplePost) :: rat) / (1000 * 60)\<bar> 0 = ''1''"
  by (simp add: earlyComment_def examplePost_def toFixed_def nat_str.simps digit_char_def
      floor_rat_numeral)

theorem validateTimestamps_sub_minute_witness:
  "quickComment \<in> set [quickComment, earlyComment]
   \<and> find (\<lambda>p. post_id p = c_post_id quickComment) [examplePost] = Some examplePost
   \<and> 0 < c_timestamp quickComment - timestamp examplePost
   \<and> c_timestamp quickComment - timestamp examplePost < 60000
   \<and> \<not> isValidCommentTime (timestamp examplePost) (c_timestamp quickComment)
   \<and> ''Comment C1 timestamp is too late (0.0 days after post)''
          \<in> set (errors (validateTimestamps [examplePost] [quickComment, earlyComment]))
   \<and> \<not> isValid (validateTimestamps [examplePost] [quickComment, earlyComment])
   \<and> earlyComment \<in> set [quickComment, earlyComment]
   \<and> find (\<lambda>p. post_id p = c_post_id earlyComment) [examplePost] = Some examplePost
   \<and> c_timestamp earlyComment - timestamp examplePost < 0
   \<and> ''Comment C2 timestamp is before its post (1 minutes early)''
          \<in> set (errors (validateTimestamps [examplePost] [quickComment, earlyComment]))"
proof -
  have q: "quickComment \<in> set [quickComment, earlyComment]"
    "find (\<lambda>p. post_id p = c_post_id quickComment) [examplePost] = Some examplePost"
    and qd: "0 < c_timestamp quickComment - timestamp examplePost"
    "c_timestamp quickComment - timestamp examplePost < 60000"
    by (simp_all add: examplePost_def quickComment_def)
  have e: "earlyComment \<in> set [quickComment, earlyComment]"
    "find (\<lambda>p. post_id p = c_post_id earlyComment) [examplePost] = Some examplePost"
    and ed: "c_timestamp earlyComment - timestamp examplePost < 0"
    by (simp_all add: examplePost_def earlyComment_def)
  have ids: "comment_id quickComment = ''C1''" "comment_id earlyComment = ''C2''"
    by (simp_all add: quickComment_def earlyComment_def)
  from validateTimestamps_sub_minute [OF q] qd ids(1)
  have 1: "\<not> isValidCommentTime (timestamp examplePost) (c_timestamp quickComment)
     \<and> ''Comment C1 timestamp is too late (0.0 days after post)''
          \<in> set (errors (validateTimestamps [examplePost] [quickComment, earlyComment]))
     \<and> \<not> isValid (validateTimestamps [examplePost] [quickComment, earlyComment])"
    by simp
  from validateTimestamps_sub_minute [OF e] ed
  have "(''Comment '' @ comment_id earlyComment @ '' timestamp is before its post (''
                @ toFixed \<bar>(of_int (c_timestamp earlyComment - timestamp examplePost) :: rat) / (1000 * 60)\<bar> 0
                @ '' minutes early)'')
          \<in> set (errors (validateTimestamps [examplePost] [quickComment, earlyComment]))"
    by blast
  then have 2: "''Comment C2 timestamp is before its post (1 minutes early)''
          \<in> set (errors (validateTimestamps [examplePost] [quickComment, earlyComment]))"
    by (simp only: early_toFixed ids) simp
  from 1 2 q qd e ed show ?thesis by blast
qed

lemma quickComment_errors: "validateTimestamps [examplePost] [quickComment]
   = \<lparr>isValid = False, errors = [''Comment C1 timestamp is too late (0.0 days after post)''], warnings = []\<rparr>"
  by (simp add: validateTimestamps_def postTimestampMessages_def commentTimestampMessages_def
      examplePost_def quickComment_def getHours_def isValidCommentTime_def getMinutesDifference_def
      toFixed_def nat_str.simps digit_char_def)

text \<open>
  Claim C10, as stated, fails: for a comment thirty seconds after its post the only
  error is the "too late" message, and no "before its post" error is reported.
\<close>

theorem validateTimestamps_before_its_post_counterexample:
  "0 < c_timestamp quickComment - timestamp examplePost
   \<and> c_timestamp quickComment - timestamp examplePost < 60 * 1000
   \<and> errors (validateTimestamps [examplePost] [quickComment])
       = [''Comment C1 timestamp is too late (0.0 days after post)'']"
  by (simp add: quickComment_errors) (simp add: examplePost_def quickComment_def)

lemma set_update_cases:
  "(a, b) \<in> set (AList.update k v al) \<Longrightarrow> (a, b) = (k, v) \<or> (a, b) \<in> set al"
  by (induction al) (auto split: if_splits)

lemma increment_positive:
  assumes "\<forall>(k, c) \<in> set m. 0 < c"
  shows "\<forall>(k, c) \<in> set (increment k' m). 0 < c"
  using assms set_update_cases [of _ _ k' _ m]
  by (fastforce simp: increment_def Let_def)

lemma fold_increment_positive:
  assumes "\<forall>(k, c) \<in> set m. 0 < c"
  shows "\<forall>(k, c) \<in> set (fold (\<lambda>x. increment (f x)) xs m). 0 < c"
  using assms
proof (induction xs arbitrary: m)
  case Nil
  then show ?case by simp
next
  case (Cons x xs)
  show ?case using Cons.IH [OF increment_positive [OF Cons.prems]] by simp
qed

lemma personaCounts_positive:
  "\<forall>(k, c) \<in> set (fold (\<lambda>comment. increment (c_username comment)) comments
       (fold (\<lambda>post. increment (author_username post)) posts [])). 0 < c"
  by (intro fold_increment_positive) simp

text \<open>
  Claim C6. The claim asks for an input on which \<open>validatePersonaDistribution\<close> warns
  about unused personas. The function counts only the usernames that occur in the posts
  and the comments, so every count is at least 1 and the warning is never produced: no
  warning of any result starts with "Unused personas: ".
\<close>

theorem validatePersonaDistribution_never_reports_unused:
  "\<not> list_ex (\<lambda>w. starts_with w ''Unused personas: '')
        (warnings (validatePersonaDistribution posts comments))"
proof -
  let ?counts = "fold (\<lambda>comment. increment (c_username comment)) comments
       (fold (\<lambda>post. increment (author_username post)) posts [])"
  have "\<not> list_ex (\<lambda>stat. stat_count stat = 0)
          (sort_by cmp (map (\<lambda>(username, count).
              \<lparr>stat_username = username, stat_count = count, stat_percentage = f count\<rparr>) ?counts))"
    for cmp and f :: "nat \<Rightarrow> rat"
    using personaCounts_positive [of comments posts]
    by (auto simp: list_ex_iff set_sort_by)
  then show ?thesis
    by (simp add: validatePersonaDistribution_def Let_def)
qed

theorem validatePersonaDistribution_never_reports_unused_witness:
  "\<not> list_ex (\<lambda>w. starts_with w ''Unused personas: '')
        (warnings (validatePersonaDistribution [examplePost] [quickComment]))"
  using validatePersonaDistribution_never_reports_unused [of "[examplePost]" "[quickComment]"] .

section \<open>Claims about the persona rotation\<close>

lemma selectCommentAuthors_pool:
  assumes "filter (\<lambda>p. username p \<noteq> username postAuthor) personas \<noteq> []"
    and "withUsage usageTracker username
           (filter (\<lambda>p. username p \<noteq> username postAuthor) personas) = Some tracked"
  shows "selectCommentAuthors usageTracker personas postAuthor postIndex s =
     (let selected = map fst
            (take (nat (min (2 + floor_random (next_draw s) 3)
                     (int (length (filter (\<lambda>p. username p \<noteq> username postAuthor) personas)))))
               (sort_by (\<lambda>a b.
                    if commentCount (snd a) \<noteq> commentCount (snd b)
                    then int (commentCount (snd a)) - int (commentCount (snd b))
                    else lastUsedIndex (snd a) - lastUsedIndex (snd b)) tracked));
          tr = fold (markCommentAuthor postIndex) selected usageTracker
      in if next_draw (rest s) < 7 / 10 \<and> length selected > 0 then
           (case map_of tr (username postAuthor) of
              None \<Rightarrow> Inl TypeError
            | Some u \<Rightarrow>
                Inr (selected @ [postAuthor],
                     AList.update (username postAuthor) (u\<lparr>commentCount := commentCount u + 1\<rparr>) tr,
                     rest (rest s)))
         else Inr (selected, tr, rest (rest s)))"
  using assms by (simp add: selectCommentAuthors_def Let_def)

lemma selectCommentAuthors_nonempty_pool:
  assumes r: "0 \<le> next_draw s" "next_draw s < 1"
    and pool: "filter (\<lambda>p. username p \<noteq> username postAuthor) personas \<noteq> []"
    and res: "selectCommentAuthors usageTracker personas postAuthor postIndex s = Inr (sel, tr, s')"
  shows "\<exists>others. sel = others @ (if next_draw (rest s) < 7 / 10 then [postAuthor] else [])
           \<and> int (length others)
               = min (2 + floor_random (next_draw s) 3)
                   (int (length (filter (\<lambda>p. username p \<noteq> username postAuthor) personas)))
           \<and> 1 \<le> length others \<and> length others \<le> 4
           \<and> set others \<subseteq> set personas
           \<and> (\<forall>p \<in> set others. username p \<noteq> username postAuthor)"
proof -
  let ?avail = "filter (\<lambda>p. username p \<noteq> username postAuthor) personas"
  define m where "m = min (2 + floor_random (next_draw s) 3) (int (length ?avail))"
  from pool have n: "0 < length ?avail" by simp
  note cc = commentCount_range [OF r n, folded m_def]
  from cc(1) have m_pos: "int (nat m) = m" by linarith
  from res pool obtain tracked where t: "withUsage usageTracker username ?avail = Some tracked"
    by (auto simp: selectCommentAuthors_def Let_def split: option.splits)
  have fst_tracked: "map fst tracked = ?avail" by (rule withUsage_Some [OF t])
  have "length (map fst tracked) = length ?avail" by (simp only: fst_tracked)
  then have len: "length tracked = length ?avail" by simp
  define sorted where "sorted = sort_by (\<lambda>a b.
                    if commentCount (snd a) \<noteq> commentCount (snd b)
                    then int (commentCount (snd a)) - int (commentCount (snd b))
                    else lastUsedIndex (snd a) - lastUsedIndex (snd b)) tracked"
  define selected where "selected = map fst (take (nat m) sorted)"
  have sl: "length sorted = length ?avail" and ss: "set sorted = set tracked"
    by (simp_all add: sorted_def length_sort_by set_sort_by len)
  have ls: "length selected = nat m"
    using cc(3) sl by (simp add: selected_def)
  have "set selected \<subseteq> fst ` set sorted"
    by (auto simp: selected_def dest: in_set_takeD)
  also have "\<dots> = set (map fst tracked)" by (simp add: ss)
  also have "\<dots> = set ?avail" by (simp only: fst_tracked)
  finally have sub: "set selected \<subseteq> set ?avail" .
  have pos: "0 < length selected" using cc(1) unfolding ls by linarith
  have "selectCommentAuthors usageTracker personas postAuthor postIndex s =
      (if next_draw (rest s) < 7 / 10 \<and> length selected > 0 then
           (case map_of (fold (markCommentAuthor postIndex) selected usageTracker) (username postAuthor) of
              None \<Rightarrow> Inl TypeError
            | Some u \<Rightarrow>
                Inr (selected @ [postAuthor],
                     AList.update (username postAuthor) (u\<lparr>commentCount := commentCount u + 1\<rparr>)
                       (fold (markCommentAuthor postIndex) selected usageTracker),
                     rest (rest s)))
         else Inr (selected, fold (markCommentAuthor postIndex) selected usageTracker, rest (rest s)))"
    unfolding selectCommentAuthors_pool [OF pool t] Let_def selected_def sorted_def m_def ..
  with res pos
  have sel: "sel = selected @ (if next_draw (rest s) < 7 / 10 then [postAuthor] else [])"
    by (auto split: option.splits if_splits)
  have "int (length selected) = min (2 + floor_random (next_draw s) 3) (int (length ?avail))"
    unfolding ls m_pos by (simp only: m_def)
  moreover have "1 \<le> length selected" "length selected \<le> 4"
    using cc(1,2) unfolding ls by simp_all
  moreover have "set selected \<subseteq> set personas" using sub by auto
  moreover have "\<forall>p \<in> set selected. username p \<noteq> username postAuthor" using sub by auto
  ultimately show ?thesis using sel by blast
qed

text \<open>
  Claim C2, as amended. With a first draw in \<open>[0, 1)\<close>: when no persona of the list has
  a username other than the post author's, \<open>selectCommentAuthors\<close> returns the post author
  alone, makes no draw and leaves the matcher as it is. Otherwise every list it returns
  is made of \<open>k\<close> personas of the list whose usernames differ from the post author's,
  \<open>k\<close> being the smaller of \<open>2 + floor(3r)\<close> and the size of that pool, so between 1 and
  4, followed by the post author exactly when the second draw is below 0.7. In every case
  the list has between 1 and 5 personas. The call does return when the matcher tracks the
  personas and the post author, as it does after \<open>selectPostAuthor\<close>.
\<close>

theorem selectCommentAuthors_count:
  assumes "0 \<le> next_draw s" "next_draw s < 1"
  shows "(\<forall>sel tr s'. selectCommentAuthors usageTracker personas postAuthor postIndex s = Inr (sel, tr, s')
            \<longrightarrow> 1 \<le> length sel \<and> length sel \<le> 5)
     \<and> ((\<forall>p \<in> set personas. map_of usageTracker (username p) \<noteq> None)
          \<and> map_of usageTracker (username postAuthor) \<noteq> None
          \<longrightarrow> (\<exists>sel tr s'. selectCommentAuthors usageTracker personas postAuthor postIndex s
                  = Inr (sel, tr, s')))
     \<and> (filter (\<lambda>p. username p \<noteq> username postAuthor) personas = []
          \<longrightarrow> selectCommentAuthors usageTracker personas postAuthor postIndex s
                = Inr ([postAuthor], usageTracker, s))
     \<and> (\<forall>sel tr s'.
           filter (\<lambda>p. username p \<noteq> username postAuthor) personas \<noteq> []
           \<and> selectCommentAuthors usageTracker personas postAuthor postIndex s = Inr (sel, tr, s')
           \<longrightarrow> (\<exists>others.
                 sel = others @ (if next_draw (rest s) < 7 / 10 then [postAuthor] else [])
                 \<and> int (length others)
                     = min (2 + floor_random (next_draw s) 3)
                         (int (length (filter (\<lambda>p. username p \<noteq> username postAuthor) personas)))
                 \<and> 1 \<le> length others \<and> length others \<le> 4
                 \<and> set others \<subseteq> set personas
                 \<and> (\<forall>p \<in> set others. username p \<noteq> username postAuthor)))"
proof -
  let ?avail = "filter (\<lambda>p. username p \<noteq> username postAuthor) personas"
  have lone: "selectCommentAuthors usageTracker personas postAuthor postIndex s
                = Inr ([postAuthor], usageTracker, s)" if "?avail = []"
    using that by (simp add: selectCommentAuthors_def)
  have comp: "\<exists>others.
                 sel = others @ (if next_draw (rest s) < 7 / 10 then [postAuthor] else [])
                 \<and> int (length others) = min (2 + floor_random (next_draw s) 3) (int (length ?avail))
                 \<and> 1 \<le> length others \<and> length others \<le> 4
                 \<and> set others \<subseteq> set personas
                 \<and> (\<forall>p \<in> set others. username p \<noteq> username postAuthor)"
    if "?avail \<noteq> []"
      and "selectCommentAuthors usageTracker personas postAuthor postIndex s = Inr (sel, tr, s')"
    for sel tr s'
    using selectCommentAuthors_nonempty_pool [OF assms that] .
  have part1: "1 \<le> length sel \<and> length sel \<le> 5"
    if res: "selectCommentAuthors usageTracker personas postAuthor postIndex s = Inr (sel, tr, s')"
    for sel tr s'
  proof (cases "?avail = []")
    case True
    from lone [OF True] res show ?thesis by simp
  next
    case False
    from comp [OF False res] show ?thesis by auto
  qed
  have part2: "\<exists>sel tr s'. selectCommentAuthors usageTracker personas postAuthor postIndex s
                  = Inr (sel, tr, s')"
    if tracked: "\<forall>p \<in> set personas. map_of usageTracker (username p) \<noteq> None"
      and author: "map_of usageTracker (username postAuthor) \<noteq> None"
  proof (cases "?avail = []")
    case True
    from lone [OF True] show ?thesis by blast
  next
    case False
    from tracked have "\<forall>p \<in> set ?avail. map_of usageTracker (username p) \<noteq> None" by simp
    from withUsage_tracked [OF this] obtain tr where
      t: "withUsage usageTracker username ?avail = Some tr" by blast
    show ?thesis
      using False t author
      by (auto simp: selectCommentAuthors_def Let_def fold_markCommentAuthor_dom
          split: option.splits)
  qed
  from part1 part2 lone comp show ?thesis by blast
qed

theorem selectCommentAuthors_count_witness:
  "0 \<le> next_draw (draws_of [2 / 3, 1 / 2]) \<and> next_draw (draws_of [2 / 3, 1 / 2]) < 1
   \<and> (\<exists>sel tr s'.
         selectCommentAuthors matcherAfterFirstPost fivePersonas (hd fivePersonas) 0
           (draws_of [2 / 3, 1 / 2]) = Inr (sel, tr, s')
         \<and> 1 \<le> length sel \<and> length sel \<le> 5
         \<and> (\<exists>others. sel = others @ [hd fivePersonas] \<and> length others = 4
               \<and> set others \<subseteq> set fivePersonas
               \<and> (\<forall>p \<in> set others. username p \<noteq> username (hd fivePersonas))))
   \<and> filter (\<lambda>p. username p \<noteq> username (hd fivePersonas)) [hd fivePersonas] = []
   \<and> selectCommentAuthors [] [hd fivePersonas] (hd fivePersonas) 0 (draws_of [2 / 3, 1 / 2])
       = Inr ([hd fivePersonas], [], draws_of [2 / 3, 1 / 2])"
proof -
  let ?s = "draws_of [2 / 3, 1 / 2]"
  have d: "0 \<le> next_draw ?s" "next_draw ?s < 1"
    by (simp_all add: next_draw_def draws_of_def)
  have t: "(\<forall>p \<in> set fivePersonas. map_of matcherAfterFirstPost (username p) \<noteq> None)
      \<and> map_of matcherAfterFirstPost (username (hd fivePersonas)) \<noteq> None"
    by (simp add: fivePersonas_def matcherAfterFirstPost_def)
  have pool: "filter (\<lambda>p. username p \<noteq> username (hd fivePersonas)) fivePersonas \<noteq> []"
    and n: "int (length (filter (\<lambda>p. username p \<noteq> username (hd fivePersonas)) fivePersonas)) = 4"
    by (simp_all add: fivePersonas_def)
  have joins: "next_draw (rest ?s) < 7 / 10"
    by (simp add: next_draw_def rest_def draws_of_def)
  have k: "min (2 + floor_random (next_draw ?s) 3) 4 = 4"
    by (simp add: next_draw_def draws_of_def floor_random_def)
  have lone: "filter (\<lambda>p. username p \<noteq> username (hd fivePersonas)) [hd fivePersonas] = []"
    by simp
  note inst = selectCommentAuthors_count [OF d, of matcherAfterFirstPost fivePersonas "hd fivePersonas" 0]
  from inst t obtain sel tr s' where
    res: "selectCommentAuthors matcherAfterFirstPost fivePersonas (hd fivePersonas) 0 ?s
          = Inr (sel, tr, s')"
    by blast
  from inst res have len: "1 \<le> length sel \<and> length sel \<le> 5" by blast
  from inst res pool obtain others where
    o: "sel = others @ (if next_draw (rest ?s) < 7 / 10 then [hd fivePersonas] else [])"
      "int (length others) = min (2 + floor_random (next_draw ?s) 3)
         (int (length (filter (\<lambda>p. username p \<noteq> username (hd fivePersonas)) fivePersonas)))"
      "set others \<subseteq> set fivePersonas"
      "\<forall>p \<in> set others. username p \<noteq> username (hd fivePersonas)"
    by blast
  from o(1) joins have o1: "sel = others @ [hd fivePersonas]" by simp
  from o(2) n k have o2: "length others = 4" by simp
  from selectCommentAuthors_count [OF d, of "[]" "[hd fivePersonas]" "hd fivePersonas" 0] lone
  have l: "selectCommentAuthors [] [hd fivePersonas] (hd fivePersonas) 0 ?s
       = Inr ([hd fivePersonas], [], ?s)" by blast
  from d res len o1 o2 o(3,4) lone l show ?thesis by blast
qed

lemma matcherAfterFirstPost_eq:
  "map_sum id snd (selectPostAuthor [] fivePersonas 0) = Inr matcherAfterFirstPost"
  by (simp add: selectPostAuthor_def fivePersonas_def matcherAfterFirstPost_def
      initPersonaUsage_def sort_by_def Let_def)

lemma five_commenters:
  "map_sum id (map username \<circ> fst)
     (selectCommentAuthors matcherAfterFirstPost fivePersonas (hd fivePersonas) 0 (draws_of [2 / 3, 1 / 2]))
   = Inr [''jordan_consults'', ''emily_econ'', ''alex_sells'', ''priya_pm'', ''riley_ops'']"
  by (simp add: selectCommentAuthors_def fivePersonas_def matcherAfterFirstPost_def
      draws_of_def next_draw_def rest_def floor_random_def floor_rat_numeral
      sort_by_def markCommentAuthor_def Let_def)

text \<open>
  Claim C2, as stated, fails: with five personas, a first draw of 2/3 (four commenters)
  and a second draw of 1/2 (the post author joins), the list has five personas.
\<close>

theorem selectCommentAuthors_at_most_four_counterexample:
  "map_sum id (length \<circ> fst)
     (selectCommentAuthors matcherAfterFirstPost fivePersonas (hd fivePersonas) 0 (draws_of [2 / 3, 1 / 2]))
   = Inr 5"
  using five_commenters
  by (cases "selectCommentAuthors matcherAfterFirstPost fivePersonas (hd fivePersonas) 0 (draws_of [2 / 3, 1 / 2])")
     auto

section \<open>Claims about the subreddit rotation\<close>

lemma map_of_initSubredditUsage:
  "map_of (initSubredditUsage sub tr) k =
     (if k = sub \<and> map_of tr sub = None
      then Some \<lparr>tracked_subreddit = sub, postsThisWeek = 0, lastPostIndex = - 1\<rparr>
      else map_of tr k)"
  by (auto simp: initSubredditUsage_def update_conv')

lemma map_of_fold_initSubredditUsage:
  "map_of (fold initSubredditUsage subs tr) k =
     (case map_of tr k of
        Some u \<Rightarrow> Some u
      | None \<Rightarrow> if k \<in> set subs
                then Some \<lparr>tracked_subreddit = k, postsThisWeek = 0, lastPostIndex = - 1\<rparr>
                else None)"
  by (induction subs arbitrary: tr) (auto simp: map_of_initSubredditUsage split: option.splits)

lemma posted_fold_init:
  "postedSubreddits (fold initSubredditUsage subs tr) = postedSubreddits tr"
  by (auto simp: postedSubreddits_def map_of_fold_initSubredditUsage split: option.splits if_splits)

lemma available_after_init:
  "filter (\<lambda>sub. case map_of (fold initSubredditUsage subs tr) sub of
                    None \<Rightarrow> False
                  | Some usage \<Rightarrow> postsThisWeek usage = 0) subs
   = filter (\<lambda>sub. sub \<notin> postedSubreddits tr) subs"
  by (rule filter_cong)
     (auto simp: postedSubreddits_def map_of_fold_initSubredditUsage split: option.splits)

lemma selectSubreddit_fresh:
  assumes "\<not> set subs \<subseteq> postedSubreddits tr"
  shows "\<exists>sub tr'. selectSubreddit tr subs i totalPosts = Inr (sub, tr')
           \<and> sub \<in> set subs \<and> sub \<notin> postedSubreddits tr
           \<and> postedSubreddits tr' = insert sub (postedSubreddits tr)"
proof -
  let ?tr1 = "fold initSubredditUsage subs tr"
  let ?avail = "filter (\<lambda>sub. sub \<notin> postedSubreddits tr) subs"
  let ?sub = "?avail ! (i mod length ?avail)"
  from assms have ne: "?avail \<noteq> []" by (auto simp: filter_empty_conv)
  then have "?sub \<in> set ?avail" by (intro nth_mem) simp
  then have sub: "?sub \<in> set subs" "?sub \<notin> postedSubreddits tr" by auto
  then have "map_of ?tr1 ?sub \<noteq> None"
    by (cases "map_of tr ?sub") (simp_all add: map_of_fold_initSubredditUsage)
  then obtain usage where u: "map_of ?tr1 ?sub = Some usage" by blast
  let ?tr' = "AList.update ?sub (usage\<lparr>postsThisWeek := postsThisWeek usage + 1,
                                         lastPostIndex := int i\<rparr>) ?tr1"
  have sel: "selectSubreddit tr subs i totalPosts = Inr (?sub, ?tr')"
    using ne u by (simp add: selectSubreddit_def available_after_init Let_def)
  have "postedSubreddits ?tr' = insert ?sub (postedSubreddits ?tr1)"
    by (auto simp: postedSubreddits_def update_conv')
  then have "postedSubreddits ?tr' = insert ?sub (postedSubreddits tr)"
    by (simp add: posted_fold_init)
  with sel sub show ?thesis by blast
qed

lemma selectSubreddits_distinct:
  assumes "n \<le> card (set subs - postedSubreddits tr)"
  shows "\<exists>ys. selectSubreddits tr subs totalPosts i n = Inr ys \<and> length ys = n \<and> distinct ys
           \<and> set ys \<subseteq> set subs - postedSubreddits tr"
  using assms
proof (induction n arbitrary: tr i)
  case 0
  then show ?case by simp
next
  case (Suc n)
  have "\<not> set subs \<subseteq> postedSubreddits tr"
  proof
    assume "set subs \<subseteq> postedSubreddits tr"
    then have "set subs - postedSubreddits tr = {}" by blast
    with Suc.prems show False by simp
  qed
  from selectSubreddit_fresh [OF this, of i totalPosts] obtain sub tr' where
    step: "selectSubreddit tr subs i totalPosts = Inr (sub, tr')"
    and sub: "sub \<in> set subs" "sub \<notin> postedSubreddits tr"
    and posted: "postedSubreddits tr' = insert sub (postedSubreddits tr)"
    by blast
  have "set subs - postedSubreddits tr' = (set subs - postedSubreddits tr) - {sub}"
    using posted by auto
  then have "card (set subs - postedSubreddits tr') = card (set subs - postedSubreddits tr) - 1"
    using sub by simp
  with Suc.prems have "n \<le> card (set subs - postedSubreddits tr')" by simp
  from Suc.IH [OF this, of "Suc i"] obtain ys where
    ys: "selectSubreddits tr' subs totalPosts (Suc i) n = Inr ys" "length ys = n" "distinct ys"
      "set ys \<subseteq> set subs - postedSubreddits tr'"
    by blast
  have "sub \<notin> set ys" using ys(4) posted by auto
  with step ys sub posted show ?case by auto
qed

text \<open>
  Claim C4. On a fresh strategy, when the list of subreddits has at least \<open>totalPosts\<close>
  distinct names, the calls of \<open>selectSubreddit\<close> for the post indices
  \<open>0, \<dots>, totalPosts - 1\<close> all return, and the subreddits they return are pairwise
  distinct names of the list.
\<close>

theorem selectSubreddit_no_repeat:
  assumes "totalPosts \<le> card (set subs)"
  shows "\<exists>ys. selectSubreddits [] subs totalPosts 0 totalPosts = Inr ys
           \<and> length ys = totalPosts \<and> distinct ys \<and> set ys \<subseteq> set subs"
proof -
  have "postedSubreddits [] = {}" by (simp add: postedSubreddits_def)
  with assms selectSubreddits_distinct [of totalPosts subs "[]" totalPosts 0]
  show ?thesis by auto
qed


theorem selectSubreddit_no_repeat_witness:
  "3 \<le> card (set [''r/PowerPoint'', ''r/GoogleSlides'', ''r/PowerPoint'', ''r/consulting''])
   \<and> (\<exists>ys. selectSubreddits [] [''r/PowerPoint'', ''r/GoogleSlides'', ''r/PowerPoint'', ''r/consulting''] 3 0 3
              = Inr ys
           \<and> length ys = 3 \<and> distinct ys
           \<and> set ys \<subseteq> set [''r/PowerPoint'', ''r/GoogleSlides'', ''r/PowerPoint'', ''r/consulting''])"
proof -
  have c: "3 \<le> card (set [''r/PowerPoint'', ''r/GoogleSlides'', ''r/PowerPoint'', ''r/consulting''])"
    unfolding card_set by simp
  from selectSubreddit_no_repeat [OF c] c show ?thesis by blast
qed

section \<open>Claims about the keyword rotation\<close>

lemma distinct_map_insert_by:
  "distinct (map f (insert_by cmp x xs)) \<longleftrightarrow> f x \<notin> f ` set xs \<and> distinct (map f xs)"
  by (induction xs) (auto simp: set_insert_by)

lemma distinct_map_sort_by:
  "distinct (map f (sort_by cmp xs)) \<longleftrightarrow> distinct (map f xs)"
  unfolding sort_by_def
proof (induction xs)
  case Nil
  then show ?case by simp
next
  case (Cons x xs)
  have "set (foldr (insert_by cmp) xs []) = set xs"
    using set_sort_by [of cmp xs] by (simp add: sort_by_def)
  with Cons show ?case by (simp add: distinct_map_insert_by)
qed

lemma map_of_initKeywordUsage:
  "map_of (initKeywordUsage kw tr) k = None \<longleftrightarrow> map_of tr k = None \<and> k \<noteq> keyword_id kw"
  by (auto simp: initKeywordUsage_def update_conv')

lemma map_of_fold_initKeywordUsage:
  "map_of (fold initKeywordUsage kws tr) k = None
     \<longleftrightarrow> map_of tr k = None \<and> k \<notin> keyword_id ` set kws"
  by (induction kws arbitrary: tr) (auto simp: map_of_initKeywordUsage)

lemma selectNewCombinations_subset:
  "selectNewCombinations n i combos ks (sel, tr) = (sel', tr') \<Longrightarrow> set sel' \<subseteq> set sel \<union> set ks"
proof (induction ks arbitrary: sel tr)
  case Nil
  then show ?case by simp
next
  case (Cons kw ks)
  show ?case
  proof (cases "length sel \<ge> n")
    case True
    with Cons.prems show ?thesis by auto
  next
    case False
    show ?thesis
    proof (cases "length sel = 0 \<or> combinationKey (sel @ [kw]) \<notin> set combos")
      case True
      with False Cons.prems have
        "selectNewCombinations n i combos ks (sel @ [kw], markKeywordUsed i kw tr) = (sel', tr')"
        by (simp add: Let_def)
      from Cons.IH [OF this] show ?thesis by auto
    next
      case no: False
      with False Cons.prems have "selectNewCombinations n i combos ks (sel, tr) = (sel', tr')"
        by (simp add: Let_def)
      from Cons.IH [OF this] show ?thesis by auto
    qed
  qed
qed

lemma selectNewCombinations_distinct:
  "selectNewCombinations n i combos ks (sel, tr) = (sel', tr')
   \<Longrightarrow> distinct (map keyword_id (sel @ ks)) \<Longrightarrow> distinct (map keyword_id sel')"
proof (induction ks arbitrary: sel tr)
  case Nil
  then show ?case by simp
next
  case (Cons kw ks)
  show ?case
  proof (cases "length sel \<ge> n")
    case True
    with Cons.prems show ?thesis by auto
  next
    case False
    show ?thesis
    proof (cases "length sel = 0 \<or> combinationKey (sel @ [kw]) \<notin> set combos")
      case True
      with False Cons.prems(1) have
        "selectNewCombinations n i combos ks (sel @ [kw], markKeywordUsed i kw tr) = (sel', tr')"
        by (simp add: Let_def)
      from Cons.IH [OF this] Cons.prems(2) show ?thesis by auto
    next
      case no: False
      with False Cons.prems(1) have "selectNewCombinations n i combos ks (sel, tr) = (sel', tr')"
        by (simp add: Let_def)
      from Cons.IH [OF this] Cons.prems(2) show ?thesis by auto
    qed
  qed
qed

lemma selectNewCombinations_length:
  "selectNewCombinations n i combos ks (sel, tr) = (sel', tr')
   \<Longrightarrow> length sel \<le> n \<Longrightarrow> length sel' \<le> n"
proof (induction ks arbitrary: sel tr)
  case Nil
  then show ?case by simp
next
  case (Cons kw ks)
  show ?case
  proof (cases "length sel \<ge> n")
    case True
    with Cons.prems show ?thesis by auto
  next
    case False
    show ?thesis
    proof (cases "length sel = 0 \<or> combinationKey (sel @ [kw]) \<notin> set combos")
      case True
      with False Cons.prems(1) have
        "selectNewCombinations n i combos ks (sel @ [kw], markKeywordUsed i kw tr) = (sel', tr')"
        by (simp add: Let_def)
      from Cons.IH [OF this] False show ?thesis by auto
    next
      case no: False
      with False Cons.prems(1) have "selectNewCombinations n i combos ks (sel, tr) = (sel', tr')"
        by (simp add: Let_def)
      from Cons.IH [OF this] Cons.prems(2) show ?thesis by auto
    qed
  qed
qed

lemma find_None_ids:
  "find (\<lambda>k. keyword_id k = x) sel = None \<longleftrightarrow> x \<notin> keyword_id ` set sel"
  by (auto simp: find_None_iff)

lemma fillLeastUsed_props:
  "fillLeastUsed n i ks (sel, tr) = (sel', tr')
   \<Longrightarrow> set sel \<subseteq> set sel' \<and> set sel' \<subseteq> set sel \<union> set ks
       \<and> (distinct (map keyword_id sel) \<longrightarrow> distinct (map keyword_id sel'))
       \<and> (length sel \<le> n \<longrightarrow> length sel' \<le> n)
       \<and> (length sel' < n \<longrightarrow> keyword_id ` set ks \<subseteq> keyword_id ` set sel')"
proof (induction ks arbitrary: sel tr)
  case Nil
  then show ?case by simp
next
  case (Cons kw ks)
  show ?case
  proof (cases "length sel \<ge> n")
    case True
    with Cons.prems show ?thesis by auto
  next
    case False
    show ?thesis
    proof (cases "find (\<lambda>k. keyword_id k = keyword_id kw) sel = None")
      case True
      with False Cons.prems have
        "fillLeastUsed n i ks (sel @ [kw], markKeywordUsed i kw tr) = (sel', tr')"
        by simp
      from Cons.IH [OF this] True False show ?thesis
        by (auto simp: find_None_ids)
    next
      case present: False
      with False Cons.prems have "fillLeastUsed n i ks (sel, tr) = (sel', tr')"
        by simp
      from Cons.IH [OF this] present show ?thesis
        by (auto simp: find_None_ids)
    qed
  qed
qed

text \<open>
  Claim C8. For a keyword list of at least three keywords with pairwise distinct ids,
  whatever the state of the strategy and the draw, \<open>selectKeywordsForPost\<close> returns, and
  the list it returns has 2 or 3 keywords with pairwise distinct ids, all of them elements
  of the supplied list.
\<close>

theorem selectKeywordsForPost_count:
  assumes "3 \<le> length availableKeywords"
    and "distinct (map keyword_id availableKeywords)"
  shows "\<exists>sel st. selectKeywordsForPost strategy availableKeywords postIndex subreddit r = Inr (sel, st)
           \<and> (length sel = 2 \<or> length sel = 3)
           \<and> distinct (map keyword_id sel)
           \<and> set sel \<subseteq> set availableKeywords"
proof -
  let ?tr = "fold initKeywordUsage availableKeywords (keywordUsage strategy)"
  define n :: nat where "n = (if r < 6 / 10 then 2 else 3)"
  have n: "n = 2 \<or> n = 3" by (simp add: n_def)
  have "\<forall>kw \<in> set availableKeywords. map_of ?tr (keyword_id kw) \<noteq> None"
    by (simp add: map_of_fold_initKeywordUsage)
  from withUsage_tracked [OF this] obtain tracked where
    t: "withUsage ?tr keyword_id availableKeywords = Some tracked" by blast
  have fst_tracked: "map fst tracked = availableKeywords" by (rule withUsage_Some [OF t])
  let ?cmp = "\<lambda>a b. if usageCount (snd a) \<noteq> usageCount (snd b)
                        then int (usageCount (snd a)) - int (usageCount (snd b))
                        else lastUsedPostIndex (snd a) - lastUsedPostIndex (snd b)"
  define ks where "ks = map fst (sort_by ?cmp tracked)"
  have ks_set: "set ks = set availableKeywords"
  proof -
    have "set ks = fst ` set (sort_by ?cmp tracked)" by (simp add: ks_def)
    also have "\<dots> = fst ` set tracked" by (simp only: set_sort_by)
    also have "\<dots> = set (map fst tracked)" by simp
    finally show ?thesis by (simp only: fst_tracked)
  qed
  have "length (map fst tracked) = length availableKeywords" by (simp only: fst_tracked)
  then have ks_len: "length ks = length availableKeywords"
    by (simp add: ks_def length_sort_by)
  have ks_dist: "distinct (map keyword_id ks)"
  proof -
    have "distinct (map keyword_id (map fst tracked))"
      using assms(2) by (simp only: fst_tracked)
    then have "distinct (map (keyword_id \<circ> fst) tracked)" by simp
    then have "distinct (map (keyword_id \<circ> fst) (sort_by ?cmp tracked))"
      by (simp only: distinct_map_sort_by)
    then show ?thesis by (simp add: ks_def)
  qed
  obtain sel1 tr1 where l1:
    "selectNewCombinations n postIndex (keywordCombinations strategy) ks ([], ?tr) = (sel1, tr1)"
    by (cases "selectNewCombinations n postIndex (keywordCombinations strategy) ks ([], ?tr)")
  have s1: "set sel1 \<subseteq> set ks" "distinct (map keyword_id sel1)" "length sel1 \<le> n"
    using selectNewCombinations_subset [OF l1] selectNewCombinations_distinct [OF l1]
      selectNewCombinations_length [OF l1] ks_dist
    by simp_all
  obtain sel2 tr2 where l2:
    "(if length sel1 < n then fillLeastUsed n postIndex ks (sel1, tr1) else (sel1, tr1)) = (sel2, tr2)"
    by (cases "if length sel1 < n then fillLeastUsed n postIndex ks (sel1, tr1) else (sel1, tr1)")
  have s2: "set sel2 \<subseteq> set ks \<and> distinct (map keyword_id sel2) \<and> length sel2 = n"
  proof (cases "length sel1 < n")
    case False
    with l2 s1 show ?thesis by auto
  next
    case True
    with l2 have f: "fillLeastUsed n postIndex ks (sel1, tr1) = (sel2, tr2)" by simp
    note p = fillLeastUsed_props [OF f]
    have le: "length sel2 \<le> n" and d: "distinct (map keyword_id sel2)"
      and sub: "set sel2 \<subseteq> set ks"
      using p s1 by auto
    have "\<not> length sel2 < n"
    proof
      assume "length sel2 < n"
      with p have "keyword_id ` set ks \<subseteq> keyword_id ` set sel2" by blast
      then have "card (keyword_id ` set ks) \<le> card (keyword_id ` set sel2)"
        by (intro card_mono) simp_all
      moreover have "card (keyword_id ` set ks) = length ks"
        using distinct_card [OF ks_dist] by simp
      moreover have "card (keyword_id ` set sel2) \<le> length sel2"
        using card_length [of "map keyword_id sel2"] by simp
      ultimately have "length ks \<le> length sel2" by simp
      with \<open>length sel2 < n\<close> ks_len assms(1) n show False by auto
    qed
    with le d sub show ?thesis by simp
  qed
  have "selectKeywordsForPost strategy availableKeywords postIndex subreddit r
        = Inr (sel2, \<lparr>keywordUsage = tr2,
                      keywordCombinations =
                        (if combinationKey sel2 \<in> set (keywordCombinations strategy)
                         then keywordCombinations strategy
                         else keywordCombinations strategy @ [combinationKey sel2])\<rparr>)"
    by (simp only: selectKeywordsForPost_def Let_def t option.case n_def [symmetric]
        ks_def [symmetric] l1 prod.case l2)
  with s2 n ks_set show ?thesis by auto
qed

theorem selectKeywordsForPost_count_witness:
  "3 \<le> length exampleKeywords \<and> distinct (map keyword_id exampleKeywords)
   \<and> (\<exists>sel st.
         selectKeywordsForPost \<lparr>keywordUsage = [], keywordCombinations = []\<rparr> exampleKeywords 0
           ''r/PowerPoint'' (1 / 2) = Inr (sel, st)
         \<and> (length sel = 2 \<or> length sel = 3)
         \<and> distinct (map keyword_id sel)
         \<and> set sel \<subseteq> set exampleKeywords)"
proof -
  have h: "3 \<le> length exampleKeywords" "distinct (map keyword_id exampleKeywords)"
    by (simp_all add: exampleKeywords_def)
  from selectKeywordsForPost_count [OF h] h show ?thesis by blast
qed


section \<open>Claims about the content generator\<close>

lemma planComment_parent:
  "parentCommentId (fst (planComment a i p s)) = None
   \<or> parentCommentId (fst (planComment a i p s)) = Some ''C1''"
  "parentCommentId (fst (planComment a 0 p s)) = None"
  by (simp_all add: planComment_def Let_def)

lemma planComments_parents:
  "list_all (\<lambda>p. p = None \<or> p = Some ''C1'') (map parentCommentId (fst (planComments a i ps s)))"
proof (induction ps arbitrary: i s)
  case Nil
  then show ?case by simp
next
  case (Cons p ps)
  show ?case
    using planComment_parent(1) [of a i p s] Cons.IH [of "Suc i" "snd (planComment a i p s)"]
    by (simp add: case_prod_beta)
qed

lemma planComments_first:
  "case fst (planComments a 0 ps s) of [] \<Rightarrow> True | p # _ \<Rightarrow> parentCommentId p = None"
  by (cases ps) (simp_all add: case_prod_beta planComment_parent(2))

lemma createCommentPlans_parents:
  "list_all (\<lambda>p. p = None \<or> p = Some ''C1'') (map parentCommentId (fst (createCommentPlans ps n a s)))"
  "case fst (createCommentPlans ps n a s) of [] \<Rightarrow> True | p # _ \<Rightarrow> parentCommentId p = None"
  by (simp_all add: createCommentPlans_def planComments_parents planComments_first)

lemma threadInvariant_append:
  assumes "threadInvariant allComments n"
    and "comment_id c = ''C'' @ nat_str n"
    and "parent_comment_id c = None \<or> parent_comment_id c = Some ''C1''"
    and "allComments = [] \<Longrightarrow> parent_comment_id c = None"
  shows "threadInvariant (allComments @ [c]) (n + 1)"
  using assms by (cases allComments) (auto simp: threadInvariant_def)

lemma generateOneComment_ids:
  assumes "generateOneComment ai input post plan allComments n s = Inr (c, s1)"
  shows "comment_id c = ''C'' @ nat_str n" and "parent_comment_id c = parentCommentId plan"
    and "c_post_id c = post_id post"
  using assms
  by (auto simp: generateOneComment_def Let_def split: sum.splits if_splits)

lemma generatePostComments_invariant:
  assumes "generatePostComments ai input post plans allComments n s = Inr (allComments', n', s')"
    and "threadInvariant allComments n"
    and "list_all (\<lambda>p. p = None \<or> p = Some ''C1'') (map parentCommentId plans)"
    and "allComments = [] \<Longrightarrow> (case plans of [] \<Rightarrow> True | p # _ \<Rightarrow> parentCommentId p = None)"
  shows "threadInvariant allComments' n'"
  using assms
proof (induction plans arbitrary: allComments n s)
  case Nil
  then show ?case by simp
next
  case (Cons plan plans)
  from Cons.prems(1) obtain c s1 where
    one: "generateOneComment ai input post plan allComments n s = Inr (c, s1)"
    and rec: "generatePostComments ai input post plans (allComments @ [c]) (n + 1) s1
              = Inr (allComments', n', s')"
    by (auto split: sum.splits)
  note c = generateOneComment_ids(1,2) [OF one]
  have "threadInvariant (allComments @ [c]) (n + 1)"
    using Cons.prems(2,3,4) c by (intro threadInvariant_append) auto
  from Cons.IH [OF rec this] Cons.prems(3) show ?case by simp
qed

lemma generateCommentsFrom_invariant:
  assumes "generateCommentsFrom ai input postPlans i posts allComments n matcher s
           = Inr (allComments', matcher', s')"
    and "threadInvariant allComments n"
  shows "\<exists>n'. threadInvariant allComments' n'"
  using assms
proof (induction posts arbitrary: i allComments n matcher s)
  case Nil
  then show ?case by auto
next
  case (Cons post posts)
  from Cons.prems(1) obtain ps m1 s1 plans s1' all1 n1 s2 k where
    plans: "createCommentPlans ps k (plan_author (postPlans ! i)) s1 = (plans, s1')"
    and inner: "generatePostComments ai input post plans allComments n s1' = Inr (all1, n1, s2)"
    and rec: "generateCommentsFrom ai input postPlans (i + 1) posts all1 n1 m1 s2
              = Inr (allComments', matcher', s')"
    by (auto simp: Let_def split: sum.splits prod.splits if_splits)
  have "threadInvariant all1 n1"
    using generatePostComments_invariant [OF inner Cons.prems(2)]
      createCommentPlans_parents [of ps k "plan_author (postPlans ! i)" s1] plans
    by simp
  from Cons.IH [OF rec this] show ?case .
qed

lemma assembledContent_invariant:
  assumes "assembledContent env input = Inr (posts, comments)"
  shows "\<exists>n. threadInvariant comments n"
proof -
  from assms obtain postPlans posts' m s m' s' where
    "generateCommentsFrom (aiService env) input postPlans 0 posts' [] 1 m s = Inr (comments, m', s')"
    by (auto simp: assembledContent_def generateComments_def split: sum.splits prod.splits)
  moreover have "threadInvariant [] 1" by (simp add: threadInvariant_def)
  ultimately show ?thesis by (rule generateCommentsFrom_invariant)
qed

lemma fixTimestampIssues_ids:
  "map comment_id (snd (fixTimestampIssues posts comments)) = map comment_id comments"
  "map parent_comment_id (snd (fixTimestampIssues posts comments)) = map parent_comment_id comments"
  by (simp_all add: fixTimestampIssues_def Let_def comp_def split: option.splits)

lemma threadInvariant_cong:
  assumes "map comment_id cs' = map comment_id cs"
    and "map parent_comment_id cs' = map parent_comment_id cs"
  shows "threadInvariant cs' n = threadInvariant cs n"
proof -
  have "(case cs' of [] \<Rightarrow> True | c # _ \<Rightarrow> parent_comment_id c = None)
      = (case cs of [] \<Rightarrow> True | c # _ \<Rightarrow> parent_comment_id c = None)"
    using assms(2) by (cases cs; cases cs') auto
  then show ?thesis using assms by (simp add: threadInvariant_def)
qed

lemma threadInvariant_integrity:
  assumes "threadInvariant cs n"
  shows "distinct (map comment_id cs)"
    and "c \<in> set cs \<Longrightarrow> parent_comment_id c = Some p
         \<Longrightarrow> (\<exists>c' \<in> set cs. comment_id c' = p) \<and> comment_id c \<noteq> p"
proof -
  have inj: "inj (\<lambda>k. ''C'' @ nat_str k)" by (auto simp: inj_def dest: nat_str_inj)
  from assms have ids: "map comment_id cs = map (\<lambda>k. ''C'' @ nat_str k) [1 ..< n]"
    by (simp add: threadInvariant_def)
  show d: "distinct (map comment_id cs)"
    unfolding ids using inj by (simp add: distinct_map inj_on_def inj_def)
  assume c: "c \<in> set cs" and p: "parent_comment_id c = Some p"
  from assms c p have pc: "p = ''C1''"
    by (auto simp: threadInvariant_def list_all_iff)
  from c obtain h t where cs: "cs = h # t" by (cases cs) auto
  with assms have h: "parent_comment_id h = None" by (simp add: threadInvariant_def)
  from ids cs have "n > 1" by (cases "n > 1") auto
  then have "[1 ..< n] = 1 # [Suc 1 ..< n]" by (simp add: upt_conv_Cons)
  with ids cs have hid: "comment_id h = ''C1''" using nat_str_1 by simp
  have "comment_id c \<noteq> ''C1''"
  proof
    assume "comment_id c = ''C1''"
    with hid d cs c have "c = h" by (auto simp: image_iff)
    with h p show False by simp
  qed
  with hid cs pc show "(\<exists>c' \<in> set cs. comment_id c' = p) \<and> comment_id c \<noteq> p" by auto
qed

lemma generate_via_assembledContent:
  "generate env input =
     (case assembledContent env input of
        Inl e \<Rightarrow> Inl e
      | Inr (posts, comments) \<Rightarrow>
          (let fixed = fixTimestampIssues posts comments;
               validation = validateContentCalendar (fst fixed) (snd fixed)
           in if \<not> isValid validation
              then Inl (ValidationError
                     (''Content validation failed: '' @ join '', '' (errors validation)))
              else Inr \<lparr>weekNumber = (case input_weekNumber input of
                                        None \<Rightarrow> 1
                                      | Some n \<Rightarrow> if n = 0 then 1 else n),
                        companyName = name (input_company input),
                        calendar_posts = fst fixed,
                        calendar_comments = snd fixed,
                        generatedAt = clockAtEnd env\<rparr>))"
  by (simp add: generate_def assembledContent_def Let_def case_prod_beta
      split: sum.splits prod.splits)

lemma generate_Inr:
  assumes "generate env input = Inr cal"
  shows "\<exists>posts comments. assembledContent env input = Inr (posts, comments)
           \<and> calendar_posts cal = fst (fixTimestampIssues posts comments)
           \<and> calendar_comments cal = snd (fixTimestampIssues posts comments)
           \<and> isValid (validateContentCalendar (calendar_posts cal) (calendar_comments cal))"
  using assms unfolding generate_via_assembledContent
  by (auto simp: Let_def split: sum.splits prod.splits if_splits)

text \<open>
  Claim C3. In every calendar that \<open>generate\<close> returns, the comment ids are pairwise
  distinct, every parent id that is not \<open>null\<close> is the id of a comment of the calendar,
  and no comment is its own parent. This holds for every input, every sequence of draws
  and every collaborator.
\<close>

theorem generate_comment_integrity:
  assumes "generate env input = Inr cal"
  shows "distinct (map comment_id (calendar_comments cal))
       \<and> (\<forall>c \<in> set (calendar_comments cal). \<forall>p. parent_comment_id c = Some p \<longrightarrow>
             (\<exists>c' \<in> set (calendar_comments cal). comment_id c' = p) \<and> comment_id c \<noteq> p)"
proof -
  from generate_Inr [OF assms] obtain posts comments where
    a: "assembledContent env input = Inr (posts, comments)"
    and c: "calendar_comments cal = snd (fixTimestampIssues posts comments)"
    by blast
  from assembledContent_invariant [OF a] obtain n where "threadInvariant comments n" ..
  then have "threadInvariant (calendar_comments cal) n"
    unfolding c by (simp add: threadInvariant_cong [OF fixTimestampIssues_ids])
  from threadInvariant_integrity [OF this] show ?thesis by blast
qed

lemma generate_example: "generate exampleEnv exampleInput = Inr exampleCalendar"
  by code_simp

theorem generate_comment_integrity_witness:
  "generate exampleEnv exampleInput = Inr exampleCalendar
   \<and> distinct (map comment_id (calendar_comments exampleCalendar))
   \<and> (\<exists>c \<in> set (calendar_comments exampleCalendar).
         parent_comment_id c = Some ''C1'' \<and> comment_id c = ''C5''
         \<and> (\<exists>c' \<in> set (calendar_comments exampleCalendar). comment_id c' = ''C1'')
         \<and> comment_id c \<noteq> ''C1'')"
proof -
  have c5: "\<exists>c \<in> set (calendar_comments exampleCalendar).
      parent_comment_id c = Some ''C1'' \<and> comment_id c = ''C5''"
    by (simp add: exampleCalendar_def)
  from generate_comment_integrity [OF generate_example] c5 generate_example
  show ?thesis by blast
qed

text \<open>
  Claim C1. A reply's parent should be the first comment created for the reply's own
  post. \<open>createCommentPlans\<close> writes the constant \<open>C1\<close> as the parent of every reply, and
  \<open>generateComments\<close> never replaces it. In the run of the example, which returns a
  calendar, the first comment created for post \<open>P2\<close> is \<open>C4\<close>, and the replies \<open>C5\<close> and
  \<open>C6\<close> to post \<open>P2\<close> have the parent \<open>C1\<close>, a comment of post \<open>P1\<close>.
\<close>

theorem generate_reply_parent_in_other_post:
  "map_sum id (\<lambda>cal. map (\<lambda>c. (comment_id c, c_post_id c, parent_comment_id c))
                       (calendar_comments cal))
     (generate exampleEnv exampleInput)
   = Inr [(''C1'', ''P1'', None), (''C2'', ''P1'', Some ''C1''), (''C3'', ''P1'', Some ''C1''),
          (''C4'', ''P2'', None), (''C5'', ''P2'', Some ''C1''), (''C6'', ''P2'', Some ''C1'')]"
  by (simp add: generate_example exampleCalendar_def)

lemma isValid_iff_no_errors:
  "isValid (validateNoOverposting posts) \<longleftrightarrow> errors (validateNoOverposting posts) = []"
  "isValid (validateTopicDiversity posts) \<longleftrightarrow> errors (validateTopicDiversity posts) = []"
  "isValid (validateTimestamps posts comments) \<longleftrightarrow> errors (validateTimestamps posts comments) = []"
  "isValid (validatePersonaDistribution posts comments)
     \<longleftrightarrow> errors (validatePersonaDistribution posts comments) = []"
  "isValid (validateCommentThreads comments) \<longleftrightarrow> errors (validateCommentThreads comments) = []"
  by (simp_all add: validateNoOverposting_def validateTopicDiversity_def validateTimestamps_def
      validatePersonaDistribution_def validateCommentThreads_def Let_def)

lemma validateContentCalendar_valid:
  "isValid (validateContentCalendar posts comments) \<longleftrightarrow>
     isValid (validateNoOverposting posts) \<and> isValid (validateTopicDiversity posts)
     \<and> isValid (validateTimestamps posts comments)
     \<and> isValid (validatePersonaDistribution posts comments)
     \<and> isValid (validateCommentThreads comments)"
  by (simp add: validateContentCalendar_def Let_def)

lemma validateContentCalendar_errors:
  "isValid (validateContentCalendar posts comments)
     \<longleftrightarrow> errors (validateContentCalendar posts comments) = []"
  unfolding validateContentCalendar_valid isValid_iff_no_errors
  by (simp add: validateContentCalendar_def Let_def)

lemma generate_invalid:
  assumes "assembledContent env input = Inr (posts, comments)"
    and "\<not> isValid (validateContentCalendar (fst (fixTimestampIssues posts comments))
                 (snd (fixTimestampIssues posts comments)))"
  shows "generate env input = Inl (ValidationError (''Content validation failed: ''
           @ join '', '' (errors (validateContentCalendar (fst (fixTimestampIssues posts comments))
                 (snd (fixTimestampIssues posts comments))))))"
  using assms unfolding generate_via_assembledContent by (simp add: Let_def)

text \<open>
  Claim C7. When the validation of the assembled posts and comments, after the timestamp
  fixes, is not valid, \<open>generate\<close> fails with the validation error and returns no
  calendar. Every calendar that \<open>generate\<close> returns is valid for the five checks and has
  no blocking error.
\<close>

theorem generate_valid_or_error:
  "(\<forall>posts comments.
       assembledContent env input = Inr (posts, comments)
       \<and> \<not> isValid (validateContentCalendar (fst (fixTimestampIssues posts comments))
                   (snd (fixTimestampIssues posts comments)))
       \<longrightarrow> generate env input = Inl (ValidationError (''Content validation failed: ''
             @ join '', '' (errors (validateContentCalendar (fst (fixTimestampIssues posts comments))
                   (snd (fixTimestampIssues posts comments)))))))
   \<and> (\<forall>cal. generate env input = Inr cal \<longrightarrow>
         isValid (validateContentCalendar (calendar_posts cal) (calendar_comments cal))
         \<and> isValid (validateNoOverposting (calendar_posts cal))
         \<and> isValid (validateTopicDiversity (calendar_posts cal))
         \<and> isValid (validateTimestamps (calendar_posts cal) (calendar_comments cal))
         \<and> isValid (validatePersonaDistribution (calendar_posts cal) (calendar_comments cal))
         \<and> isValid (validateCommentThreads (calendar_comments cal))
         \<and> errors (validateContentCalendar (calendar_posts cal) (calendar_comments cal)) = [])"
proof (intro conjI allI impI)
  fix posts comments
  assume "assembledContent env input = Inr (posts, comments)
       \<and> \<not> isValid (validateContentCalendar (fst (fixTimestampIssues posts comments))
                   (snd (fixTimestampIssues posts comments)))"
  then show "generate env input = Inl (ValidationError (''Content validation failed: ''
             @ join '', '' (errors (validateContentCalendar (fst (fixTimestampIssues posts comments))
                   (snd (fixTimestampIssues posts comments))))))"
    using generate_invalid by blast
next
  fix cal
  assume "generate env input = Inr cal"
  from generate_Inr [OF this]
  have v: "isValid (validateContentCalendar (calendar_posts cal) (calendar_comments cal))"
    by blast
  then show "isValid (validateContentCalendar (calendar_posts cal) (calendar_comments cal))" .
  from v show "isValid (validateNoOverposting (calendar_posts cal))"
    and "isValid (validateTopicDiversity (calendar_posts cal))"
    and "isValid (validateTimestamps (calendar_posts cal) (calendar_comments cal))"
    and "isValid (validatePersonaDistribution (calendar_posts cal) (calendar_comments cal))"
    and "isValid (validateCommentThreads (calendar_comments cal))"
    by (simp_all add: validateContentCalendar_valid)
  from v show "errors (validateContentCalendar (calendar_posts cal) (calendar_comments cal)) = []"
    by (simp add: validateContentCalendar_errors)
qed

lemma overposting_invalid:
  "case assembledContent exampleEnv overpostingInput of
     Inl e \<Rightarrow> False
   | Inr (posts, comments) \<Rightarrow>
       \<not> isValid (validateContentCalendar (fst (fixTimestampIssues posts comments))
               (snd (fixTimestampIssues posts comments)))"
  by code_simp

theorem generate_valid_or_error_witness:
  "generate exampleEnv exampleInput = Inr exampleCalendar
   \<and> isValid (validateContentCalendar (calendar_posts exampleCalendar)
        (calendar_comments exampleCalendar))
   \<and> isValid (validateNoOverposting (calendar_posts exampleCalendar))
   \<and> isValid (validateTopicDiversity (calendar_posts exampleCalendar))
   \<and> isValid (validateTimestamps (calendar_posts exampleCalendar) (calendar_comments exampleCalendar))
   \<and> isValid (validatePersonaDistribution (calendar_posts exampleCalendar)
        (calendar_comments exampleCalendar))
   \<and> isValid (validateCommentThreads (calendar_comments exampleCalendar))
   \<and> (\<exists>posts comments msg.
         assembledContent exampleEnv overpostingInput = Inr (posts, comments)
         \<and> \<not> isValid (validateContentCalendar (fst (fixTimestampIssues posts comments))
                 (snd (fixTimestampIssues posts comments)))
         \<and> generate exampleEnv overpostingInput = Inl (ValidationError msg))"
proof -
  from overposting_invalid obtain posts comments where
    bad: "assembledContent exampleEnv overpostingInput = Inr (posts, comments)
       \<and> \<not> isValid (validateContentCalendar (fst (fixTimestampIssues posts comments))
                   (snd (fixTimestampIssues posts comments)))"
    by (auto split: sum.splits)
  from generate_valid_or_error [of exampleEnv overpostingInput] bad
  have "\<exists>msg. generate exampleEnv overpostingInput = Inl (ValidationError msg)" by blast
  with bad generate_valid_or_error [of exampleEnv exampleInput] generate_example
  show ?thesis by blast
qed


end
